theory Spec2Isabelle
  imports Complex_Main
begin

section \<open>The rectangle glyph of Charticulator: attributes and intrinsic constraints\<close>

text \<open>
  The development follows the glyph class file of the repository (\<^verbatim>\<open>GlyphClass\<close>,
  \<^verbatim>\<open>RectangleGlyph\<close>). A JavaScript number is modelled as a \<^typ>\<open>real\<close>: every
  arithmetic step the file performs on its own constants (\<open>60 / 2\<close>, \<open>100 / 2\<close>, negation,
  adding \<open>0\<close>) is exact in IEEE double precision, so the model agrees with the code on them.
\<close>

subsection \<open>Data model\<close>

text \<open>
  Modelled from the spec: \<^verbatim>\<open>Specification.AttributeMap\<close>, which the file imports, a
  named mapping from attribute name to numeric value. It is a JavaScript object with
  string keys: a property that was never assigned reads as \<^verbatim>\<open>undefined\<close>, which is
  \<^term>\<open>None\<close> here.
\<close>

type_synonym AttributeMap = "string \<rightharpoonup> real"

text \<open>
  Modelled from the spec: the state of an element instance (\<^verbatim>\<open>Specification.MarkState\<close>
  for a mark), which the file imports. An element instance owns one attribute map.
\<close>

record ObjectState =
  attributes :: AttributeMap

text \<open>
  Modelled from the spec: \<^verbatim>\<open>Specification.GlyphState\<close>, which the file imports. A
  glyph instance additionally owns an ordered sequence of child mark instances.
\<close>

record GlyphState = ObjectState +
  marks :: "ObjectState list"

text \<open>The attribute names the class declares, in the order of the source.\<close>

definition attributeNames :: "string list" where
  "attributeNames =
     [''x1'', ''y1'', ''x2'', ''y2'', ''x'', ''y'', ''width'', ''height'',
      ''ix1'', ''iy1'', ''ix2'', ''iy2'', ''icx'', ''icy'']"

subsection \<open>\<^verbatim>\<open>initializeState\<close>\<close>

text \<open>
  The method assigns fourteen properties in sequence; the later assignments read
  \<^verbatim>\<open>attrs.x\<close>, \<^verbatim>\<open>attrs.y\<close>, \<^verbatim>\<open>attrs.width\<close> and \<^verbatim>\<open>attrs.height\<close> back from the
  object. \<open>num\<close> is such a read of a property that holds a number; every read below
  follows the assignment of the property it reads.
\<close>

definition num :: "AttributeMap \<Rightarrow> string \<Rightarrow> real" where
  "num attrs name = the (attrs name)"

definition initializeState :: "GlyphState \<Rightarrow> GlyphState" where
  "initializeState state =
     (let attrs = attributes state;
          attrs = attrs(''x'' \<mapsto> 0);
          attrs = attrs(''y'' \<mapsto> 0);
          attrs = attrs(''width'' \<mapsto> 60);
          attrs = attrs(''height'' \<mapsto> 100);
          attrs = attrs(''x1'' \<mapsto> num attrs ''x'' - num attrs ''width'' / 2);
          attrs = attrs(''y1'' \<mapsto> num attrs ''y'' - num attrs ''height'' / 2);
          attrs = attrs(''x2'' \<mapsto> num attrs ''x'' + num attrs ''width'' / 2);
          attrs = attrs(''y2'' \<mapsto> num attrs ''y'' + num attrs ''height'' / 2);
          attrs = attrs(''ix1'' \<mapsto> (- num attrs ''width'') / 2);
          attrs = attrs(''iy1'' \<mapsto> (- num attrs ''height'') / 2);
          attrs = attrs(''ix2'' \<mapsto> num attrs ''width'' / 2);
          attrs = attrs(''iy2'' \<mapsto> num attrs ''height'' / 2);
          attrs = attrs(''icx'' \<mapsto> 0);
          attrs = attrs(''icy'' \<mapsto> 0)
      in state\<lparr>attributes := attrs\<rparr>)"

subsection \<open>The solver session, as far as the class uses it\<close>

text \<open>
  The class imports \<^verbatim>\<open>ConstraintSolver\<close> and \<^verbatim>\<open>ConstraintStrength\<close> and calls the
  solver's methods \<^verbatim>\<open>attr\<close>, \<^verbatim>\<open>attrs\<close> and \<^verbatim>\<open>addLinear\<close>; none of them is part
  of the file.
\<close>

text \<open>
  Modelled from the spec: \<^verbatim>\<open>ConstraintStrength\<close>, which is \<open>HARD\<close> (must hold
  exactly) or one of the soft tiers \<open>WEAK < MEDIUM < STRONG\<close>.
\<close>

datatype ConstraintStrength = HARD | STRONG | MEDIUM | WEAK

text \<open>
  Modelled from the spec: a constraint, the linear relation
  \<open>\<Sum> lhs = \<Sum> rhs + constant\<close> tagged with a strength. A term is a pair of a coefficient
  and a variable handle.
\<close>

record 'v Constraint =
  strength :: ConstraintStrength
  bias :: real
  lhs :: "(real \<times> 'v) list"
  rhs :: "(real \<times> 'v) list"

text \<open>
  Modelled from the spec: the solve session behind \<^verbatim>\<open>ConstraintSolver\<close>. It holds the
  variables allocated in it, each with the value it currently has (its starting guess
  until a solve), and the constraints registered so far.
\<close>

record 'v ConstraintSolver =
  variables :: "'v \<rightharpoonup> real"
  constraints :: "'v Constraint list"

text \<open>
  Modelled from the spec: \<^verbatim>\<open>addLinear(strength, constant, lhsTerms, rhsTerms)\<close>, which
  registers \<open>\<Sum> lhsTerms = \<Sum> rhsTerms + constant\<close> at the given strength, after the
  constraints registered before. The source leaves \<^verbatim>\<open>rhsTerms\<close> out in four calls; it
  is the empty list there.
\<close>

definition addLinear ::
  "ConstraintStrength \<Rightarrow> real \<Rightarrow> (real \<times> 'v) list \<Rightarrow> (real \<times> 'v) list \<Rightarrow>
     'v ConstraintSolver \<Rightarrow> 'v ConstraintSolver" where
  "addLinear s b l r solver =
     solver\<lparr>constraints :=
       constraints solver @ [\<lparr>strength = s, bias = b, lhs = l, rhs = r\<rparr>]\<rparr>"

text \<open>
  Modelled from the spec: the attribute map objects the class hands to the solver. They
  are its own map, \<^verbatim>\<open>this.state.attributes\<close>, and the map of a child mark,
  \<^verbatim>\<open>this.state.marks[i].attributes\<close>, found by its index in the glyph's sequence of
  marks.
\<close>

datatype AttributeMapRef = GlyphAttributes | MarkAttributes nat

text \<open>
  Modelled from the spec: a variable handle, one per attribute of an instance: the
  attribute map object together with the attribute's name.
\<close>

type_synonym Variable = "AttributeMapRef \<times> string"

text \<open>
  Modelled from the spec: \<^verbatim>\<open>solver.attr(map, name)\<close>, the handle of the variable that
  stands for the attribute \<open>name\<close> of \<open>map\<close>.
\<close>

definition attr :: "AttributeMapRef \<Rightarrow> string \<Rightarrow> Variable" where
  "attr m name = (m, name)"

text \<open>
  Modelled from the spec: \<^verbatim>\<open>solver.attrs(map, names)\<close>, the handles of several
  attributes of one map, in the order of the names.
\<close>

definition attrs :: "AttributeMapRef \<Rightarrow> string list \<Rightarrow> Variable list" where
  "attrs m names = map (attr m) names"

text \<open>
  Modelled from the spec: the sum \<open>\<Sum> c\<^sub>i \<cdot> v\<^sub>i\<close> of a list of terms on an assignment
  of numbers to the variables.
\<close>

definition termSum :: "('v \<Rightarrow> real) \<Rightarrow> (real \<times> 'v) list \<Rightarrow> real" where
  "termSum \<rho> ts = sum_list (map (\<lambda>(c, v). c * \<rho> v) ts)"

text \<open>
  Modelled from the spec: what a registered constraint says of an assignment that gives
  every variable a number, \<open>\<Sum> lhs = \<Sum> rhs + constant\<close>.
\<close>

definition satisfied :: "('v \<Rightarrow> real) \<Rightarrow> 'v Constraint \<Rightarrow> bool" where
  "satisfied \<rho> c = (termSum \<rho> (lhs c) = termSum \<rho> (rhs c) + bias c)"

text \<open>
  Modelled from the spec: every variable of a list of terms has a number among the values
  that instances currently hold.
\<close>

definition defined :: "('v \<rightharpoonup> real) \<Rightarrow> (real \<times> 'v) list \<Rightarrow> bool" where
  "defined \<sigma> ts = list_all (\<lambda>(c, v). \<sigma> v \<noteq> None) ts"

text \<open>
  Modelled from the spec: a constraint holds on the values that instances currently
  hold; a variable whose property is undefined satisfies nothing.
\<close>

definition holds :: "('v \<rightharpoonup> real) \<Rightarrow> 'v Constraint \<Rightarrow> bool" where
  "holds \<sigma> c =
     (defined \<sigma> (lhs c) \<and> defined \<sigma> (rhs c) \<and> satisfied (\<lambda>v. the (\<sigma> v)) c)"

text \<open>
  The number a variable stands for, read from the glyph instance: a property of
  \<^verbatim>\<open>this.state.attributes\<close> or of \<^verbatim>\<open>this.state.marks[i].attributes\<close>, undefined
  when the glyph has no mark at index \<open>i\<close>.
\<close>

fun variableValues :: "GlyphState \<Rightarrow> Variable \<rightharpoonup> real" where
  "variableValues state (GlyphAttributes, name) = attributes state name"
| "variableValues state (MarkAttributes i, name) =
     (if i < length (marks state) then attributes (marks state ! i) name else None)"

subsection \<open>\<^verbatim>\<open>buildIntrinsicConstraints\<close>\<close>

text \<open>
  The failures: the \<^verbatim>\<open>TypeError\<close> JavaScript throws on a property read of
  \<^verbatim>\<open>undefined\<close>, and the errors \<open>Infeasible\<close> and \<open>UnknownAttribute\<close> of the spec's
  taxonomy.
\<close>

datatype Error = TypeError | Infeasible | UnknownAttribute

text \<open>
  The method destructures the fourteen handles of its own attributes, calls
  \<^verbatim>\<open>addLinear\<close> eight times, and then twice more with a term on
  \<^verbatim>\<open>this.state.marks[0].attributes\<close>. On an empty \<^verbatim>\<open>marks\<close> array \<^verbatim>\<open>marks[0]\<close> is
  \<^verbatim>\<open>undefined\<close> and reading \<^verbatim>\<open>.attributes\<close> of it throws a \<^verbatim>\<open>TypeError\<close> while the
  arguments of the ninth call are evaluated: the solver object then keeps the eight
  constraints added before. The result is the outcome together with the solver.
\<close>

definition buildIntrinsicConstraints ::
  "GlyphState \<Rightarrow> Variable ConstraintSolver \<Rightarrow> (Error + unit) \<times> Variable ConstraintSolver" where
  "buildIntrinsicConstraints state solver =
     (let vs = attrs GlyphAttributes
            [''x1'', ''y1'', ''x2'', ''y2'', ''x'', ''y'', ''width'', ''height'',
             ''ix1'', ''iy1'', ''ix2'', ''iy2'', ''icx'', ''icy''];
          x1 = vs ! 0; y1 = vs ! 1; x2 = vs ! 2; y2 = vs ! 3; x = vs ! 4; y = vs ! 5;
          width = vs ! 6; height = vs ! 7; ix1 = vs ! 8; iy1 = vs ! 9; ix2 = vs ! 10;
          iy2 = vs ! 11; icx = vs ! 12; icy = vs ! 13;
          solver = addLinear HARD 0 [(1, x2), (- 1, x1)] [(1, width)] solver;
          solver = addLinear HARD 0 [(1, y2), (- 1, y1)] [(1, height)] solver;
          solver = addLinear HARD 0 [(1, ix2), (- 1, ix1)] [(1, width)] solver;
          solver = addLinear HARD 0 [(1, iy2), (- 1, iy1)] [(1, height)] solver;
          solver = addLinear HARD 0 [(1, ix1), (1, ix2)] [] solver;
          solver = addLinear HARD 0 [(1, iy1), (1, iy2)] [] solver;
          solver = addLinear HARD 0 [(1, icx)] [] solver;
          solver = addLinear HARD 0 [(1, icy)] [] solver
      in case marks state of
           [] \<Rightarrow> (Inl TypeError, solver)
         | mark0 # _ \<Rightarrow>
             (let solver = addLinear HARD 0 [(1, x)]
                    [(0.5, x2), (0.5, x1), (1, attr (MarkAttributes 0) ''x'')] solver;
                  solver = addLinear HARD 0 [(1, y)]
                    [(0.5, y2), (0.5, y1), (1, attr (MarkAttributes 0) ''y'')] solver
              in (Inr (), solver)))"

text \<open>
  The records the ten calls append, with the arguments as the source writes them and in
  the order of the calls.
\<close>

definition rectangleConstraints :: "Variable Constraint list" where
  "rectangleConstraints =
     [\<lparr>strength = HARD, bias = 0,
        lhs = [(1, (GlyphAttributes, ''x2'')), (- 1, (GlyphAttributes, ''x1''))],
        rhs = [(1, (GlyphAttributes, ''width''))]\<rparr>,
      \<lparr>strength = HARD, bias = 0,
        lhs = [(1, (GlyphAttributes, ''y2'')), (- 1, (GlyphAttributes, ''y1''))],
        rhs = [(1, (GlyphAttributes, ''height''))]\<rparr>,
      \<lparr>strength = HARD, bias = 0,
        lhs = [(1, (GlyphAttributes, ''ix2'')), (- 1, (GlyphAttributes, ''ix1''))],
        rhs = [(1, (GlyphAttributes, ''width''))]\<rparr>,
      \<lparr>strength = HARD, bias = 0,
        lhs = [(1, (GlyphAttributes, ''iy2'')), (- 1, (GlyphAttributes, ''iy1''))],
        rhs = [(1, (GlyphAttributes, ''height''))]\<rparr>,
      \<lparr>strength = HARD, bias = 0,
        lhs = [(1, (GlyphAttributes, ''ix1'')), (1, (GlyphAttributes, ''ix2''))],
        rhs = []\<rparr>,
      \<lparr>strength = HARD, bias = 0,
        lhs = [(1, (GlyphAttributes, ''iy1'')), (1, (GlyphAttributes, ''iy2''))],
        rhs = []\<rparr>,
      \<lparr>strength = HARD, bias = 0, lhs = [(1, (GlyphAttributes, ''icx''))], rhs = []\<rparr>,
      \<lparr>strength = HARD, bias = 0, lhs = [(1, (GlyphAttributes, ''icy''))], rhs = []\<rparr>,
      \<lparr>strength = HARD, bias = 0,
        lhs = [(1, (GlyphAttributes, ''x''))],
        rhs = [(0.5, (GlyphAttributes, ''x2'')), (0.5, (GlyphAttributes, ''x1'')),
               (1, (MarkAttributes 0, ''x''))]\<rparr>,
      \<lparr>strength = HARD, bias = 0,
        lhs = [(1, (GlyphAttributes, ''y''))],
        rhs = [(0.5, (GlyphAttributes, ''y2'')), (0.5, (GlyphAttributes, ''y1'')),
               (1, (MarkAttributes 0, ''y''))]\<rparr>]"

subsection \<open>\<^verbatim>\<open>getAlignmentGuides\<close> and \<^verbatim>\<open>getHandles\<close>\<close>

text \<open>
  Modelled from the spec: \<^verbatim>\<open>SnappingGuides.Axis\<close>, which the file imports, an
  axis-aligned guide line tagged with the attribute it tracks. The fields are the ones
  the object literals of the source fill in; the value is a property read, a number or
  \<^verbatim>\<open>undefined\<close>.
\<close>

record Axis =
  Axis_type :: string
  Axis_value :: "real option"
  Axis_attribute :: string
  Axis_visible :: bool

text \<open>
  Modelled from the spec: the action of a handle, which binds the handle to the attribute
  it controls; the fields are those of the object literals of the source.
\<close>

record HandleAction =
  Action_type :: string
  Action_attribute :: string

text \<open>
  Modelled from the spec: \<^verbatim>\<open>Handles.Line\<close>, which the file imports, a draggable line
  handle with its axis, its actions, its value (a property read) and the span it covers.
\<close>

record Line =
  Line_type :: string
  Line_axis :: string
  Line_actions :: "HandleAction list"
  Line_value :: "real option"
  Line_span :: "real list"

text \<open>The two producers return the arrays of object literals the source writes.\<close>

definition getAlignmentGuides :: "GlyphState \<Rightarrow> Axis list" where
  "getAlignmentGuides state =
     (let attrs = attributes state in
      [\<lparr>Axis_type = ''x'', Axis_value = attrs ''ix1'', Axis_attribute = ''ix1'',
         Axis_visible = True\<rparr>,
       \<lparr>Axis_type = ''x'', Axis_value = attrs ''ix2'', Axis_attribute = ''ix2'',
         Axis_visible = True\<rparr>,
       \<lparr>Axis_type = ''x'', Axis_value = attrs ''icx'', Axis_attribute = ''icx'',
         Axis_visible = True\<rparr>,
       \<lparr>Axis_type = ''y'', Axis_value = attrs ''iy1'', Axis_attribute = ''iy1'',
         Axis_visible = True\<rparr>,
       \<lparr>Axis_type = ''y'', Axis_value = attrs ''iy2'', Axis_attribute = ''iy2'',
         Axis_visible = True\<rparr>,
       \<lparr>Axis_type = ''y'', Axis_value = attrs ''icy'', Axis_attribute = ''icy'',
         Axis_visible = True\<rparr>])"

definition getHandles :: "GlyphState \<Rightarrow> Line list" where
  "getHandles state =
     (let attrs = attributes state;
          ix1 = attrs ''ix1''; iy1 = attrs ''iy1''; ix2 = attrs ''ix2''; iy2 = attrs ''iy2'';
          inf = [- 10000, 10000]
      in
      [\<lparr>Line_type = ''line'', Line_axis = ''x'',
         Line_actions = [\<lparr>Action_type = ''attribute'', Action_attribute = ''ix1''\<rparr>],
         Line_value = ix1, Line_span = inf\<rparr>,
       \<lparr>Line_type = ''line'', Line_axis = ''x'',
         Line_actions = [\<lparr>Action_type = ''attribute'', Action_attribute = ''ix2''\<rparr>],
         Line_value = ix2, Line_span = inf\<rparr>,
       \<lparr>Line_type = ''line'', Line_axis = ''y'',
         Line_actions = [\<lparr>Action_type = ''attribute'', Action_attribute = ''iy1''\<rparr>],
         Line_value = iy1, Line_span = inf\<rparr>,
       \<lparr>Line_type = ''line'', Line_axis = ''y'',
         Line_actions = [\<lparr>Action_type = ''attribute'', Action_attribute = ''iy2''\<rparr>],
         Line_value = iy2, Line_span = inf\<rparr>])"

subsection \<open>Reading and writing attributes\<close>


text \<open>
  A write stores the value as it is given and creates the property when the object did
  not have it. It does not consult the attribute names of the class either, and it does
  not throw.
\<close>

definition setAttribute :: "(string \<rightharpoonup> 'a) \<Rightarrow> string \<Rightarrow> 'a \<Rightarrow> Error + (string \<rightharpoonup> 'a)" where
  "setAttribute object name v = Inr (object(name \<mapsto> v))"

text \<open>
  An instance is schema-complete when its attribute map holds exactly the attribute
  names the class declares.
\<close>

definition schemaComplete :: "GlyphState \<Rightarrow> bool" where
  "schemaComplete state = (dom (attributes state) = set attributeNames)"

section \<open>The collaborators of the class: solve and orchestration\<close>

text \<open>
  The solver's \<^verbatim>\<open>solve\<close> and the orchestrator that runs one solve over the element
  tree are not in the class file. They are modelled here from the spec, next to the code
  they work with.
\<close>

subsection \<open>Solving the hard constraints\<close>

text \<open>
  Modelled from the spec: the solver's \<^verbatim>\<open>solve\<close>, of which the file holds no code.
  Hard constraints must hold exactly and are solved first, as a linear system, by
  elimination. A linear form \<open>\<Sum> c\<^sub>i \<cdot> v\<^sub>i + k\<close> is its list of terms and its constant;
  an equation is a form that is to be \<open>0\<close>.
\<close>

type_synonym 'v LinearForm = "(real \<times> 'v) list \<times> real"

text \<open>Modelled from the spec: the number a linear form takes on an assignment.\<close>

definition evalForm :: "('v \<Rightarrow> real) \<Rightarrow> 'v LinearForm \<Rightarrow> real" where
  "evalForm \<rho> f = termSum \<rho> (fst f) + snd f"

text \<open>Modelled from the spec: a list of terms with every coefficient scaled.\<close>

definition scaleTerms :: "real \<Rightarrow> (real \<times> 'v) list \<Rightarrow> (real \<times> 'v) list" where
  "scaleTerms k ts = map (\<lambda>(c, v). (k * c, v)) ts"

text \<open>
  Modelled from the spec: a registered constraint \<open>\<Sum> lhs = \<Sum> rhs + constant\<close> as the
  equation \<open>\<Sum> lhs - \<Sum> rhs - constant = 0\<close>.
\<close>

definition equationOf :: "'v Constraint \<Rightarrow> 'v LinearForm" where
  "equationOf c = (lhs c @ scaleTerms (- 1) (rhs c), - bias c)"

text \<open>
  Modelled from the spec: the coefficient of a variable in a list of terms. A variable
  may occur in several terms; its coefficient is their sum.
\<close>

definition coefficient :: "(real \<times> 'v) list \<Rightarrow> 'v \<Rightarrow> real" where
  "coefficient ts x = sum_list (map fst (filter (\<lambda>(c, v). v = x) ts))"

text \<open>Modelled from the spec: a list of terms without the terms on one variable.\<close>

definition withoutVariable :: "'v \<Rightarrow> (real \<times> 'v) list \<Rightarrow> (real \<times> 'v) list" where
  "withoutVariable x ts = filter (\<lambda>(c, v). v \<noteq> x) ts"

text \<open>
  Modelled from the spec: the step of the elimination. Substituting a form \<open>l\<close> for a
  variable \<open>x\<close> drops the terms on \<open>x\<close> and adds \<open>l\<close> scaled by the coefficient \<open>x\<close> had.
\<close>

definition substitute :: "'v \<Rightarrow> 'v LinearForm \<Rightarrow> 'v LinearForm \<Rightarrow> 'v LinearForm" where
  "substitute x l f =
     (let k = coefficient (fst f) x
      in (withoutVariable x (fst f) @ scaleTerms k (fst l), snd f + k * snd l))"

text \<open>
  Modelled from the spec: the eliminated variables, newest first, each bound to a form
  over the variables not eliminated before it; \<open>reduce\<close> rewrites an equation with all of
  them, oldest first.
\<close>

fun reduce :: "('v \<times> 'v LinearForm) list \<Rightarrow> 'v LinearForm \<Rightarrow> 'v LinearForm" where
  "reduce [] f = f"
| "reduce ((x, l) # bs) f = substitute x l (reduce bs f)"

text \<open>
  Modelled from the spec: the variable to eliminate next, the first of the form with a
  coefficient other than \<open>0\<close>.
\<close>

definition pivot :: "(real \<times> 'v) list \<Rightarrow> ('v \<times> real) option" where
  "pivot ts =
     (case find (\<lambda>v. coefficient ts v \<noteq> 0) (map snd ts) of
        None \<Rightarrow> None
      | Some v \<Rightarrow> Some (v, coefficient ts v))"

text \<open>
  Modelled from the spec: elimination over the hard equations in the order they were
  registered. An equation that reduces to a constant other than \<open>0\<close> contradicts the
  equations before it: this is detected and nothing is approximated (\<open>None\<close>). One that
  reduces to \<open>0\<close> is redundant; any other binds one more variable.
\<close>

fun eliminate ::
  "'v LinearForm list \<Rightarrow> ('v \<times> 'v LinearForm) list \<Rightarrow> ('v \<times> 'v LinearForm) list option" where
  "eliminate [] bs = Some bs"
| "eliminate (e # es) bs =
     (let r = reduce bs e in
      case pivot (fst r) of
        None \<Rightarrow> if snd r = 0 then eliminate es bs else None
      | Some (x, k) \<Rightarrow>
          eliminate es
            ((x, (scaleTerms (- 1 / k) (withoutVariable x (fst r)), - snd r / k)) # bs))"

text \<open>
  Modelled from the spec: the values of the eliminated variables from the values of the
  others, newest binding first.
\<close>

fun backSubstitute :: "('v \<times> 'v LinearForm) list \<Rightarrow> ('v \<Rightarrow> real) \<Rightarrow> 'v \<Rightarrow> real" where
  "backSubstitute [] \<rho> = \<rho>"
| "backSubstitute ((x, l) # bs) \<rho> = backSubstitute bs (\<rho>(x := evalForm \<rho> l))"

text \<open>Modelled from the spec: the equations of the constraints of strength \<open>HARD\<close>.\<close>

definition hardEquations :: "'v ConstraintSolver \<Rightarrow> 'v LinearForm list" where
  "hardEquations solver =
     map equationOf (filter (\<lambda>c. strength c = HARD) (constraints solver))"

text \<open>
  Modelled from the spec: \<^verbatim>\<open>solve() -> Result<(), Infeasible>\<close>. It fails with
  \<open>Infeasible\<close> when the hard constraints contradict each other and otherwise writes a
  value to every variable of the session. The spec leaves the numerical scheme of the
  soft tiers open, so that scheme is the parameter \<open>relax\<close>: from the session and the
  solved form of the hard constraints it gives the variables left free their values.
\<close>

definition solve ::
  "('v ConstraintSolver \<Rightarrow> ('v \<times> 'v LinearForm) list \<Rightarrow> 'v \<Rightarrow> real) \<Rightarrow>
     'v ConstraintSolver \<Rightarrow> Error + 'v ConstraintSolver" where
  "solve relax solver =
     (case eliminate (hardEquations solver) [] of
        None \<Rightarrow> Inl Infeasible
      | Some bs \<Rightarrow>
          (let \<rho> = backSubstitute bs (relax solver bs)
           in Inr (solver\<lparr>variables :=
                 (\<lambda>v. case variables solver v of None \<Rightarrow> None | Some a \<Rightarrow> Some (\<rho> v))\<rparr>)))"

text \<open>
  An equation is solved by a list of bindings when rewriting it with them leaves a form
  that is \<open>0\<close> on every assignment.
\<close>

definition solvedBy :: "('v \<times> 'v LinearForm) list \<Rightarrow> 'v LinearForm \<Rightarrow> bool" where
  "solvedBy bs e = (\<forall>\<rho>. evalForm \<rho> (reduce bs e) = 0)"

subsection \<open>The solve orchestrator\<close>

text \<open>
  Modelled from the spec: the orchestrator, of which the file holds no code. The element
  tree is the list of the chart's glyph instances, each with its marks; a variable of the
  session is a variable of one glyph together with the index of that glyph.
\<close>

type_synonym ChartVariable = "nat \<times> Variable"

text \<open>
  Modelled from the spec: a constraint a glyph's class emitted, with its handles read as
  those of the glyph at index \<open>i\<close>.
\<close>

definition tagConstraint :: "nat \<Rightarrow> Variable Constraint \<Rightarrow> ChartVariable Constraint" where
  "tagConstraint i c =
     \<lparr>strength = strength c, bias = bias c,
      lhs = map (\<lambda>(k, v). (k, (i, v))) (lhs c),
      rhs = map (\<lambda>(k, v). (k, (i, v))) (rhs c)\<rparr>"

text \<open>
  Modelled from the spec: one solver variable per attribute across every live instance,
  seeded with the attribute's current value.
\<close>

definition allocate :: "GlyphState list \<Rightarrow> ChartVariable \<rightharpoonup> real" where
  "allocate glyphs =
     (\<lambda>(i, v). if i < length glyphs then variableValues (glyphs ! i) v else None)"

text \<open>
  Modelled from the spec: every glyph's class is asked to emit its intrinsic constraints,
  with \<^verbatim>\<open>buildIntrinsicConstraints\<close> of the source; an exception of the emitter ends
  the pass. The classes of marks are not in the source: what they emit reaches the session
  with the externally supplied constraints.
\<close>

fun emitIntrinsic ::
  "nat \<Rightarrow> GlyphState list \<Rightarrow> ChartVariable ConstraintSolver \<Rightarrow>
     Error + ChartVariable ConstraintSolver" where
  "emitIntrinsic i [] solver = Inr solver"
| "emitIntrinsic i (g # gs) solver =
     (case buildIntrinsicConstraints g \<lparr>variables = variableValues g, constraints = []\<rparr> of
        (Inl e, emitted) \<Rightarrow> Inl e
      | (Inr u, emitted) \<Rightarrow>
          emitIntrinsic (Suc i) gs
            (solver\<lparr>constraints :=
               constraints solver @ map (tagConstraint i) (constraints emitted)\<rparr>))"

text \<open>
  Modelled from the spec: the session of one solve, the variables allocated, the
  intrinsic constraints emitted and then the external constraints added at their declared
  strengths.
\<close>

definition collect ::
  "ChartVariable Constraint list \<Rightarrow> GlyphState list \<Rightarrow>
     Error + ChartVariable ConstraintSolver" where
  "collect external glyphs =
     (case emitIntrinsic 0 glyphs \<lparr>variables = allocate glyphs, constraints = []\<rparr> of
        Inl e \<Rightarrow> Inl e
      | Inr session \<Rightarrow>
          Inr (fold (\<lambda>c. addLinear (strength c) (bias c) (lhs c) (rhs c)) external session))"

text \<open>
  Modelled from the spec: on success every variable's value is copied back into the
  attribute map of the instance that owns it.
\<close>

definition distribute ::
  "ChartVariable ConstraintSolver \<Rightarrow> GlyphState list \<Rightarrow> GlyphState list" where
  "distribute solved glyphs =
     map (\<lambda>(i, g).
            g\<lparr>attributes := (\<lambda>name. variables solved (i, (GlyphAttributes, name))),
              marks :=
                map (\<lambda>(j, m). m\<lparr>attributes :=
                       (\<lambda>name. variables solved (i, (MarkAttributes j, name)))\<rparr>)
                  (enumerate 0 (marks g))\<rparr>)
       (enumerate 0 glyphs)"

text \<open>
  Modelled from the spec: the orchestrator. It collects the session, invokes \<^verbatim>\<open>solve\<close>
  once and distributes the result; on a failure it surfaces the failure and leaves every
  instance as it was. The result is the outcome together with the instances.
\<close>

definition orchestrate ::
  "(ChartVariable ConstraintSolver \<Rightarrow> (ChartVariable \<times> ChartVariable LinearForm) list \<Rightarrow>
      ChartVariable \<Rightarrow> real) \<Rightarrow>
     ChartVariable Constraint list \<Rightarrow> GlyphState list \<Rightarrow> (Error + unit) \<times> GlyphState list" where
  "orchestrate relax external glyphs =
     (case collect external glyphs of
        Inl e \<Rightarrow> (Inl e, glyphs)
      | Inr session \<Rightarrow>
          (case solve relax session of
             Inl e \<Rightarrow> (Inl e, glyphs)
           | Inr solved \<Rightarrow> (Inr (), distribute solved glyphs)))"

subsection \<open>The soft phase\<close>

text \<open>
  Modelled from the spec: a variable is seeded with a starting guess, used as an anchor
  and for the solver's warm start. A soft phase starts warm when, on a session that
  registers no soft constraint, it leaves every variable at its starting value.
\<close>

definition startsWarm ::
  "('v ConstraintSolver \<Rightarrow> ('v \<times> 'v LinearForm) list \<Rightarrow> 'v \<Rightarrow> real) \<Rightarrow> bool" where
  "startsWarm relax =
     (\<forall>session bindings v a.
        list_all (\<lambda>c. strength c = HARD) (constraints session) \<longrightarrow>
        variables session v = Some a \<longrightarrow> relax session bindings v = a)"


text \<open>
  A soft phase that starts warm: it leaves every variable at its starting value, and a
  variable that was never allocated at \<open>0\<close>.
\<close>

definition warm :: "'v ConstraintSolver \<Rightarrow> ('v \<times> 'v LinearForm) list \<Rightarrow> 'v \<Rightarrow> real" where
  "warm session bindings v = (case variables session v of None \<Rightarrow> 0 | Some a \<Rightarrow> a)"

text \<open>
  An assignment obeys a list of bindings when it gives every bound variable the value of
  the form the variable is bound to.
\<close>

definition obeys :: "('v \<Rightarrow> real) \<Rightarrow> ('v \<times> 'v LinearForm) list \<Rightarrow> bool" where
  "obeys \<rho> bs = list_all (\<lambda>(x, l). \<rho> x = evalForm \<rho> l) bs"

text \<open>
  The intrinsic constraints of \<open>n\<close> rectangle glyphs at the indices from \<open>i\<close> on, as the
  orchestrator collects them.
\<close>

definition intrinsicConstraints :: "nat \<Rightarrow> nat \<Rightarrow> ChartVariable Constraint list" where
  "intrinsicConstraints i n =
     concat (map (\<lambda>j. map (tagConstraint j) rectangleConstraints) [i..<i + n])"

subsection \<open>The operations on an instance\<close>

text \<open>
  What each operation leaves in the state of a glyph instance. The initializer assigns
  the attributes; \<^verbatim>\<open>buildIntrinsicConstraints\<close> writes to the solver it is given and
  the two producers build fresh arrays, none of the three assigns to the state. A write
  of an attribute is a property assignment. A solve is one pass of the orchestrator over
  the chart that consists of this glyph, with the external constraints given.
\<close>

datatype Operation =
    InitializeState
  | BuildIntrinsicConstraints "Variable ConstraintSolver"
  | GetAlignmentGuides
  | GetHandles
  | WriteAttribute string real
  | Solve "ChartVariable ConstraintSolver \<Rightarrow> (ChartVariable \<times> ChartVariable LinearForm) list \<Rightarrow>
            ChartVariable \<Rightarrow> real"
      "ChartVariable Constraint list"

fun perform :: "Operation \<Rightarrow> GlyphState \<Rightarrow> GlyphState" where
  "perform InitializeState state = initializeState state"
| "perform (BuildIntrinsicConstraints solver) state = state"
| "perform GetAlignmentGuides state = state"
| "perform GetHandles state = state"
| "perform (WriteAttribute name v) state =
     (case setAttribute (attributes state) name v of
        Inl e \<Rightarrow> state
      | Inr written \<Rightarrow> state\<lparr>attributes := written\<rparr>)"
| "perform (Solve relax external) state =
     (case snd (orchestrate relax external [state]) of
        [g] \<Rightarrow> g
      | _ \<Rightarrow> state)"

text \<open>An operation writes declared attributes only: a write names an attribute of the schema.\<close>

fun declaredWrite :: "Operation \<Rightarrow> bool" where
  "declaredWrite (WriteAttribute name v) = (name \<in> set attributeNames)"
| "declaredWrite op = True"

section \<open>Properties of the rectangle glyph\<close>

text \<open>The attribute map the initializer leaves behind, property by property.\<close>

lemma initializeState_attributes:
  "attributes (initializeState state) =
     (attributes state)
       (''x'' \<mapsto> 0, ''y'' \<mapsto> 0, ''width'' \<mapsto> 60, ''height'' \<mapsto> 100,
        ''x1'' \<mapsto> - 30, ''y1'' \<mapsto> - 50, ''x2'' \<mapsto> 30, ''y2'' \<mapsto> 50,
        ''ix1'' \<mapsto> - 30, ''iy1'' \<mapsto> - 50, ''ix2'' \<mapsto> 30, ''iy2'' \<mapsto> 50,
        ''icx'' \<mapsto> 0, ''icy'' \<mapsto> 0)"
  by (simp add: initializeState_def num_def Let_def)

lemma initializeState_marks: "marks (initializeState state) = marks state"
  by (simp add: initializeState_def Let_def)

text \<open>
  C2. For every rectangle glyph instance, whatever its attribute map held before,
  \<^verbatim>\<open>initializeState\<close> leaves \<open>x = 0\<close>, \<open>y = 0\<close>, \<open>width = 60\<close>, \<open>height = 100\<close>,
  \<open>x1 = -30\<close>, \<open>x2 = 30\<close>, \<open>y1 = -50\<close>, \<open>y2 = 50\<close>, \<open>ix1 = -30\<close>, \<open>ix2 = 30\<close>,
  \<open>iy1 = -50\<close>, \<open>iy2 = 50\<close>, \<open>icx = 0\<close> and \<open>icy = 0\<close>; read in the order of the declared
  attribute names, every declared attribute holds a number and none is undefined.
\<close>

theorem initializeState_default_values:
  "map (attributes (initializeState state)) attributeNames =
     map Some [- 30, - 50, 30, 50, 0, 0, 60, 100, - 30, - 50, 30, 50, 0, 0]"
  by (simp add: initializeState_attributes attributeNames_def)

subsection \<open>The constraints the emitter registers\<close>

lemma buildIntrinsicConstraints_marks:
  "marks state \<noteq> [] \<Longrightarrow>
     buildIntrinsicConstraints state solver =
       (Inr (), solver\<lparr>constraints := constraints solver @ rectangleConstraints\<rparr>)"
  by (cases "marks state")
    (simp_all add: buildIntrinsicConstraints_def rectangleConstraints_def addLinear_def
      attrs_def attr_def Let_def)

lemma buildIntrinsicConstraints_no_marks:
  "marks state = [] \<Longrightarrow>
     buildIntrinsicConstraints state solver =
       (Inl TypeError, solver\<lparr>constraints := constraints solver @ take 8 rectangleConstraints\<rparr>)"
  by (simp add: buildIntrinsicConstraints_def rectangleConstraints_def addLinear_def
      attrs_def attr_def Let_def)

text \<open>
  C1, as amended. For every rectangle glyph instance that owns at least one child mark,
  \<^verbatim>\<open>buildIntrinsicConstraints\<close> returns normally and appends to the session exactly
  ten constraints, all of strength \<open>HARD\<close> and with constant \<open>0\<close>, which on any assignment
  \<open>\<rho>\<close> of numbers to the variables read, in order:
  \<open>x2 - x1 = width\<close>, \<open>y2 - y1 = height\<close>, \<open>ix2 - ix1 = width\<close>, \<open>iy2 - iy1 = height\<close>,
  \<open>ix1 + ix2 = 0\<close>, \<open>iy1 + iy2 = 0\<close>, \<open>icx = 0\<close>, \<open>icy = 0\<close>,
  \<open>x = 0.5 * x1 + 0.5 * x2 + (first mark's x)\<close> and
  \<open>y = 0.5 * y1 + 0.5 * y2 + (first mark's y)\<close>. Nothing else is registered and the
  constraints registered before stay in place.
\<close>

theorem buildIntrinsicConstraints_registers:
  assumes "marks state \<noteq> []"
  shows "buildIntrinsicConstraints state solver =
           (Inr (), solver\<lparr>constraints := constraints solver @ rectangleConstraints\<rparr>)
         \<and> length rectangleConstraints = 10
         \<and> list_all (\<lambda>c. strength c = HARD \<and> bias c = 0) rectangleConstraints
         \<and> map (satisfied \<rho>) rectangleConstraints =
             [\<rho> (GlyphAttributes, ''x2'') - \<rho> (GlyphAttributes, ''x1'')
                = \<rho> (GlyphAttributes, ''width''),
              \<rho> (GlyphAttributes, ''y2'') - \<rho> (GlyphAttributes, ''y1'')
                = \<rho> (GlyphAttributes, ''height''),
              \<rho> (GlyphAttributes, ''ix2'') - \<rho> (GlyphAttributes, ''ix1'')
                = \<rho> (GlyphAttributes, ''width''),
              \<rho> (GlyphAttributes, ''iy2'') - \<rho> (GlyphAttributes, ''iy1'')
                = \<rho> (GlyphAttributes, ''height''),
              \<rho> (GlyphAttributes, ''ix1'') + \<rho> (GlyphAttributes, ''ix2'') = 0,
              \<rho> (GlyphAttributes, ''iy1'') + \<rho> (GlyphAttributes, ''iy2'') = 0,
              \<rho> (GlyphAttributes, ''icx'') = 0,
              \<rho> (GlyphAttributes, ''icy'') = 0,
              \<rho> (GlyphAttributes, ''x'')
                = 0.5 * \<rho> (GlyphAttributes, ''x1'') + 0.5 * \<rho> (GlyphAttributes, ''x2'')
                  + \<rho> (MarkAttributes 0, ''x''),
              \<rho> (GlyphAttributes, ''y'')
                = 0.5 * \<rho> (GlyphAttributes, ''y1'') + 0.5 * \<rho> (GlyphAttributes, ''y2'')
                  + \<rho> (MarkAttributes 0, ''y'')]"
proof -
  have emitted: "buildIntrinsicConstraints state solver =
      (Inr (), solver\<lparr>constraints := constraints solver @ rectangleConstraints\<rparr>)"
    using assms by (rule buildIntrinsicConstraints_marks)
  have count: "length rectangleConstraints = 10"
    by (simp add: rectangleConstraints_def)
  have hard: "list_all (\<lambda>c. strength c = HARD \<and> bias c = 0) rectangleConstraints"
    by (simp add: rectangleConstraints_def)
  have reading: "map (satisfied \<rho>) rectangleConstraints =
      [\<rho> (GlyphAttributes, ''x2'') - \<rho> (GlyphAttributes, ''x1'')
         = \<rho> (GlyphAttributes, ''width''),
       \<rho> (GlyphAttributes, ''y2'') - \<rho> (GlyphAttributes, ''y1'')
         = \<rho> (GlyphAttributes, ''height''),
       \<rho> (GlyphAttributes, ''ix2'') - \<rho> (GlyphAttributes, ''ix1'')
         = \<rho> (GlyphAttributes, ''width''),
       \<rho> (GlyphAttributes, ''iy2'') - \<rho> (GlyphAttributes, ''iy1'')
         = \<rho> (GlyphAttributes, ''height''),
       \<rho> (GlyphAttributes, ''ix1'') + \<rho> (GlyphAttributes, ''ix2'') = 0,
       \<rho> (GlyphAttributes, ''iy1'') + \<rho> (GlyphAttributes, ''iy2'') = 0,
       \<rho> (GlyphAttributes, ''icx'') = 0,
       \<rho> (GlyphAttributes, ''icy'') = 0,
       \<rho> (GlyphAttributes, ''x'')
         = 0.5 * \<rho> (GlyphAttributes, ''x1'') + 0.5 * \<rho> (GlyphAttributes, ''x2'')
           + \<rho> (MarkAttributes 0, ''x''),
       \<rho> (GlyphAttributes, ''y'')
         = 0.5 * \<rho> (GlyphAttributes, ''y1'') + 0.5 * \<rho> (GlyphAttributes, ''y2'')
           + \<rho> (MarkAttributes 0, ''y'')]"
    by (auto simp add: rectangleConstraints_def satisfied_def termSum_def)
  from emitted count hard reading show ?thesis by blast
qed

theorem buildIntrinsicConstraints_registers_witness:
  "buildIntrinsicConstraints
     (initializeState
        \<lparr>attributes = Map.empty, marks = [\<lparr>attributes = [''x'' \<mapsto> 0, ''y'' \<mapsto> 0]\<rparr>]\<rparr>)
     \<lparr>variables = Map.empty, constraints = []\<rparr>
   = (Inr (), \<lparr>variables = Map.empty, constraints = rectangleConstraints\<rparr>)"
proof -
  let ?s = "initializeState
    \<lparr>attributes = Map.empty, marks = [\<lparr>attributes = [''x'' \<mapsto> 0, ''y'' \<mapsto> 0]\<rparr>]\<rparr>"
  have "marks ?s \<noteq> []"
    by (simp add: initializeState_marks)
  from buildIntrinsicConstraints_registers
    [OF this, of "\<lparr>variables = Map.empty, constraints = []\<rparr>" "\<lambda>v. 0"]
  show ?thesis by simp
qed

text \<open>
  C1 as stated fails on an initialized glyph instance without child marks (a glyph as
  \<^verbatim>\<open>GlyphClass.createDefault\<close> creates it has none): the emitter throws, and the
  session holds the first eight equations and neither coupling equation.
\<close>

theorem buildIntrinsicConstraints_registers_counterexample:
  "buildIntrinsicConstraints
     (initializeState \<lparr>attributes = Map.empty, marks = []\<rparr>) \<lparr>variables = Map.empty, constraints = []\<rparr>
   = (Inl TypeError, \<lparr>variables = Map.empty, constraints = take 8 rectangleConstraints\<rparr>)
   \<and> buildIntrinsicConstraints
     (initializeState \<lparr>attributes = Map.empty, marks = []\<rparr>) \<lparr>variables = Map.empty, constraints = []\<rparr>
   \<noteq> (Inr (), \<lparr>variables = Map.empty, constraints = rectangleConstraints\<rparr>)"
  by (simp add: buildIntrinsicConstraints_no_marks initializeState_marks)

text \<open>
  C10. The emitter reads \<^verbatim>\<open>this.state.marks[0].attributes\<close> without a guard: it throws
  exactly on the instances whose \<^verbatim>\<open>marks\<close> array is empty, and returns normally
  exactly on those that own at least one child mark.
\<close>

theorem buildIntrinsicConstraints_fails_iff_no_marks:
  "(fst (buildIntrinsicConstraints state solver) = Inl TypeError) = (marks state = [])
   \<and> (fst (buildIntrinsicConstraints state solver) = Inr ()) = (marks state \<noteq> [])"
proof (cases "marks state")
  case Nil
  then show ?thesis by (simp add: buildIntrinsicConstraints_no_marks)
next
  case (Cons mark0 rest)
  then have "marks state \<noteq> []" by simp
  then show ?thesis by (simp add: buildIntrinsicConstraints_marks)
qed

subsection \<open>Schema completeness of the default state\<close>

lemma dom_upd_Some: "dom (m(a \<mapsto> b)) = insert a (dom m)"
  by simp

lemma dom_initializeState:
  "dom (attributes (initializeState state)) = dom (attributes state) \<union> set attributeNames"
  unfolding initializeState_attributes attributeNames_def
  by (simp only: dom_upd_Some list.set Un_insert_right Un_empty_right insert_commute)

lemma schemaComplete_initializeState:
  "dom (attributes state) \<subseteq> set attributeNames \<Longrightarrow> schemaComplete (initializeState state)"
  unfolding schemaComplete_def dom_initializeState by blast

lemma schemaComplete_defined:
  "schemaComplete state \<Longrightarrow> name \<in> set attributeNames \<Longrightarrow> \<exists>y. attributes state name = Some y"
  unfolding schemaComplete_def by blast

lemma intrinsic_frame_names:
  "''ix1'' \<in> set attributeNames" "''ix2'' \<in> set attributeNames"
  "''icx'' \<in> set attributeNames" "''iy1'' \<in> set attributeNames"
  "''iy2'' \<in> set attributeNames" "''icy'' \<in> set attributeNames"
  by (simp_all add: attributeNames_def)

subsection \<open>Reading and writing attributes\<close>

lemma undeclared_names: "''foo'' \<notin> set attributeNames" "''fill'' \<notin> set attributeNames"
  by (simp_all add: attributeNames_def)




subsection \<open>Guides and handles\<close>

text \<open>
  C7. \<^verbatim>\<open>getAlignmentGuides\<close> returns six guides, in order the x-axis guides tagged
  \<open>ix1\<close>, \<open>ix2\<close>, \<open>icx\<close> and the y-axis guides tagged \<open>iy1\<close>, \<open>iy2\<close>, \<open>icy\<close>; the value
  of each is the current value of the attribute it is tagged with, and on an initialized
  (schema-complete) instance each value is a number.
\<close>

theorem getAlignmentGuides_values:
  "map (\<lambda>g. (Axis_type g, Axis_attribute g)) (getAlignmentGuides state) =
     [(''x'', ''ix1''), (''x'', ''ix2''), (''x'', ''icx''),
      (''y'', ''iy1''), (''y'', ''iy2''), (''y'', ''icy'')]
   \<and> map Axis_value (getAlignmentGuides state) =
       map (\<lambda>g. attributes state (Axis_attribute g)) (getAlignmentGuides state)
   \<and> (schemaComplete state \<longrightarrow>
        list_all (\<lambda>g. Axis_value g \<noteq> None) (getAlignmentGuides state))"
  by (simp add: getAlignmentGuides_def Let_def schemaComplete_defined intrinsic_frame_names)

theorem getAlignmentGuides_values_witness:
  "schemaComplete (initializeState \<lparr>attributes = Map.empty, marks = []\<rparr>)
   \<and> list_all (\<lambda>g. Axis_value g \<noteq> None)
       (getAlignmentGuides (initializeState \<lparr>attributes = Map.empty, marks = []\<rparr>))
   \<and> map Axis_value (getAlignmentGuides (initializeState \<lparr>attributes = Map.empty, marks = []\<rparr>))
       = map Some [- 30, 30, 0, - 50, 50, 0]"
proof -
  let ?s = "initializeState \<lparr>attributes = Map.empty, marks = []\<rparr>"
  have complete: "schemaComplete ?s"
    by (rule schemaComplete_initializeState) simp
  have numbers: "list_all (\<lambda>g. Axis_value g \<noteq> None) (getAlignmentGuides ?s)"
    using getAlignmentGuides_values [of ?s] complete by blast
  have "map Axis_value (getAlignmentGuides ?s) =
      map (\<lambda>g. attributes ?s (Axis_attribute g)) (getAlignmentGuides ?s)"
    using getAlignmentGuides_values [of ?s] by blast
  also have "\<dots> = map Some [- 30, 30, 0, - 50, 50, 0]"
    by (simp add: getAlignmentGuides_def initializeState_attributes Let_def)
  finally show ?thesis using complete numbers by simp
qed

text \<open>
  C8. \<^verbatim>\<open>getHandles\<close> returns exactly four handles of type \<open>line\<close>: two on axis \<open>x\<close>
  whose action sets the attributes \<open>ix1\<close> and \<open>ix2\<close>, then two on axis \<open>y\<close> for \<open>iy1\<close>
  and \<open>iy2\<close>. The value of each handle is the current value of the attribute its action
  names, a number on an initialized instance, and the span of each is the finite range
  from \<open>-10000\<close> to \<open>10000\<close>.
\<close>

theorem getHandles_lines:
  "length (getHandles state) = 4
   \<and> map (\<lambda>h. (Line_type h, Line_axis h, map Action_type (Line_actions h),
                map Action_attribute (Line_actions h))) (getHandles state) =
       [(''line'', ''x'', [''attribute''], [''ix1'']),
        (''line'', ''x'', [''attribute''], [''ix2'']),
        (''line'', ''y'', [''attribute''], [''iy1'']),
        (''line'', ''y'', [''attribute''], [''iy2''])]
   \<and> map (\<lambda>h. [Line_value h]) (getHandles state) =
       map (\<lambda>h. map (attributes state) (map Action_attribute (Line_actions h)))
         (getHandles state)
   \<and> map Line_span (getHandles state) = replicate 4 [- 10000, 10000]
   \<and> (schemaComplete state \<longrightarrow>
        list_all (\<lambda>h. Line_value h \<noteq> None) (getHandles state))"
  by (simp add: getHandles_def Let_def schemaComplete_defined intrinsic_frame_names
      numeral_eq_Suc)

theorem getHandles_lines_witness:
  "schemaComplete (initializeState \<lparr>attributes = Map.empty, marks = []\<rparr>)
   \<and> map Line_value (getHandles (initializeState \<lparr>attributes = Map.empty, marks = []\<rparr>))
       = map Some [- 30, 30, - 50, 50]"
proof -
  let ?s = "initializeState \<lparr>attributes = Map.empty, marks = []\<rparr>"
  have complete: "schemaComplete ?s"
    by (rule schemaComplete_initializeState) simp
  have "list_all (\<lambda>h. Line_value h \<noteq> None) (getHandles ?s)"
    using getHandles_lines [of ?s] complete by blast
  moreover have "map Line_value (getHandles ?s) = map Some [- 30, 30, - 50, 50]"
    by (simp add: getHandles_def initializeState_attributes Let_def)
  ultimately show ?thesis using complete by simp
qed

section \<open>Properties of the modelled collaborators\<close>

subsection \<open>Elimination is sound\<close>

lemma termSum_Nil: "termSum \<rho> [] = 0" by (simp add: termSum_def)
lemma termSum_Cons: "termSum \<rho> ((c, v) # ts) = c * \<rho> v + termSum \<rho> ts" by (simp add: termSum_def)
lemma termSum_append: "termSum \<rho> (a @ b) = termSum \<rho> a + termSum \<rho> b" by (simp add: termSum_def)
lemma termSum_scaleTerms: "termSum \<rho> (scaleTerms k ts) = k * termSum \<rho> ts"
  by (induction ts) (auto simp add: scaleTerms_def termSum_def algebra_simps)

lemma termSum_split:
  "termSum \<rho> ts = coefficient ts x * \<rho> x + termSum \<rho> (withoutVariable x ts)"
  by (induction ts) (auto simp add: termSum_def coefficient_def withoutVariable_def algebra_simps)

lemma termSum_withoutVariable_upd:
  "termSum (\<rho>(x := a)) (withoutVariable x ts) = termSum \<rho> (withoutVariable x ts)"
  by (induction ts) (auto simp add: termSum_def withoutVariable_def)

lemma evalForm_substitute:
  "evalForm \<rho> (substitute x l f) = evalForm (\<rho>(x := evalForm \<rho> l)) f"
proof -
  have "evalForm (\<rho>(x := evalForm \<rho> l)) f =
      coefficient (fst f) x * evalForm \<rho> l + termSum \<rho> (withoutVariable x (fst f)) + snd f"
    unfolding evalForm_def [of "\<rho>(x := evalForm \<rho> l)"]
    by (subst termSum_split [of _ _ x]) (simp add: termSum_withoutVariable_upd)
  then show ?thesis
    by (simp add: substitute_def Let_def evalForm_def termSum_append termSum_scaleTerms
        algebra_simps)
qed

lemma evalForm_backSubstitute:
  "evalForm (backSubstitute bs \<rho>) f = evalForm \<rho> (reduce bs f)"
  by (induction bs arbitrary: \<rho>) (auto simp add: evalForm_substitute)

lemma coefficient_withoutVariable:
  "w \<noteq> x \<Longrightarrow> coefficient (withoutVariable x ts) w = coefficient ts w"
  by (induction ts) (auto simp add: coefficient_def withoutVariable_def)

lemma termSum_zero_coefficients:
  "\<forall>v \<in> snd ` set ts. coefficient ts v = 0 \<Longrightarrow> termSum \<rho> ts = 0"
proof (induction "length ts" arbitrary: ts rule: less_induct)
  case less
  show ?case
  proof (cases ts)
    case Nil
    then show ?thesis by (simp add: termSum_Nil)
  next
    case (Cons t rest)
    obtain c x where t: "t = (c, x)" by (cases t)
    have zero: "coefficient ts x = 0"
      using less.prems Cons t by simp
    have shorter: "length (withoutVariable x ts) < length ts"
      using Cons t by (simp add: withoutVariable_def le_imp_less_Suc)
    have "\<forall>v \<in> snd ` set (withoutVariable x ts). coefficient (withoutVariable x ts) v = 0"
    proof
      fix v assume v: "v \<in> snd ` set (withoutVariable x ts)"
      then have "v \<noteq> x" and "v \<in> snd ` set ts"
        by (auto simp add: withoutVariable_def)
      then show "coefficient (withoutVariable x ts) v = 0"
        using less.prems by (auto simp add: coefficient_withoutVariable)
    qed
    then have "termSum \<rho> (withoutVariable x ts) = 0"
      using less.hyps [OF shorter] by blast
    then show ?thesis
      using termSum_split [of \<rho> ts x] zero by simp
  qed
qed

lemma pivot_None: "pivot ts = None \<Longrightarrow> termSum \<rho> ts = 0"
  by (rule termSum_zero_coefficients)
    (auto simp add: pivot_def find_None_iff split: option.splits)

lemma pivot_Some: "pivot ts = Some (x, k) \<Longrightarrow> k = coefficient ts x \<and> k \<noteq> 0"
  by (auto simp add: pivot_def find_Some_iff split: option.splits)

lemma solvedBy_Cons: "solvedBy bs e \<Longrightarrow> solvedBy ((x, l) # bs) e"
  by (simp add: solvedBy_def evalForm_substitute)

lemma solvedBy_pivot:
  assumes "pivot (fst (reduce bs e)) = Some (x, k)"
  shows "solvedBy
    ((x, (scaleTerms (- 1 / k) (withoutVariable x (fst (reduce bs e))), - snd (reduce bs e) / k)) # bs) e"
proof -
  from pivot_Some [OF assms] have k: "k = coefficient (fst (reduce bs e)) x" "k \<noteq> 0" by auto
  show ?thesis
    unfolding solvedBy_def
  proof
    fix \<rho> :: "'a \<Rightarrow> real"
    let ?r = "reduce bs e"
    let ?l = "(scaleTerms (- 1 / k) (withoutVariable x (fst ?r)), - snd ?r / k)"
    have "evalForm \<rho> (reduce ((x, ?l) # bs) e) =
        termSum \<rho> (withoutVariable x (fst ?r)) + k * ((- 1 / k) * termSum \<rho> (withoutVariable x (fst ?r)))
          + (snd ?r + k * (- snd ?r / k))"
      using k(1) by (simp add: substitute_def Let_def evalForm_def termSum_append termSum_scaleTerms)
    also have "\<dots> = 0" using k(2) by simp
    finally show "evalForm \<rho> (reduce ((x, ?l) # bs) e) = 0" .
  qed
qed

lemma eliminate_solvedBy:
  "eliminate es bs = Some bs' \<Longrightarrow> \<forall>e \<in> set ds. solvedBy bs e \<Longrightarrow>
     \<forall>e \<in> set ds \<union> set es. solvedBy bs' e"
proof (induction es arbitrary: bs ds)
  case Nil
  then show ?case by simp
next
  case (Cons e es)
  let ?r = "reduce bs e"
  show ?case
  proof (cases "pivot (fst ?r)")
    case None
    with Cons.prems(1) have zero: "snd ?r = 0" and rest: "eliminate es bs = Some bs'"
      by (auto simp add: Let_def split: if_splits)
    have "solvedBy bs e"
      by (simp add: solvedBy_def evalForm_def pivot_None [OF None] zero)
    with Cons.prems(2) have "\<forall>d \<in> set (e # ds). solvedBy bs d" by simp
    from Cons.IH [OF rest this] show ?thesis by auto
  next
    case (Some p)
    obtain x k where p: "p = (x, k)" by (cases p)
    let ?bs = "(x, (scaleTerms (- 1 / k) (withoutVariable x (fst ?r)), - snd ?r / k)) # bs"
    from Cons.prems(1) Some p have rest: "eliminate es ?bs = Some bs'"
      by (simp add: Let_def)
    have "pivot (fst ?r) = Some (x, k)"
      using Some p by simp
    then have "solvedBy ?bs e"
      by (rule solvedBy_pivot)
    moreover have "\<forall>d \<in> set ds. solvedBy ?bs d"
      using Cons.prems(2) by (simp add: solvedBy_Cons)
    ultimately have "\<forall>d \<in> set (e # ds). solvedBy ?bs d" by simp
    from Cons.IH [OF rest this] show ?thesis by auto
  qed
qed

lemma eliminate_sound:
  assumes "eliminate es [] = Some bs" and "e \<in> set es"
  shows "evalForm (backSubstitute bs \<rho>) e = 0"
proof -
  have "\<forall>e \<in> set [] \<union> set es. solvedBy bs e"
    using assms(1) by (rule eliminate_solvedBy) simp
  with assms(2) have "solvedBy bs e" by simp
  then show ?thesis by (simp add: evalForm_backSubstitute solvedBy_def)
qed

lemma satisfied_equationOf: "satisfied \<rho> c = (evalForm \<rho> (equationOf c) = 0)"
  by (auto simp add: satisfied_def evalForm_def equationOf_def termSum_append termSum_scaleTerms)

subsection \<open>Contradictory hard constraints\<close>

text \<open>
  Whatever the soft phase contributes, a solve that succeeds leaves the variables of the
  session with the values of an assignment on which every hard constraint holds exactly.
\<close>

lemma solve_sound:
  assumes "solve relax solver = Inr solved"
  shows "\<exists>\<rho>. (\<forall>v a. variables solver v = Some a \<longrightarrow> variables solved v = Some (\<rho> v))
           \<and> (\<forall>c \<in> set (constraints solver). strength c = HARD \<longrightarrow> satisfied \<rho> c)"
proof -
  from assms obtain bs where bs: "eliminate (hardEquations solver) [] = Some bs"
    and solved: "solved = solver\<lparr>variables :=
      (\<lambda>v. case variables solver v of None \<Rightarrow> None
          | Some a \<Rightarrow> Some (backSubstitute bs (relax solver bs) v))\<rparr>"
    by (auto simp add: solve_def Let_def split: option.splits)
  let ?\<rho> = "backSubstitute bs (relax solver bs)"
  have "\<forall>c \<in> set (constraints solver). strength c = HARD \<longrightarrow> satisfied ?\<rho> c"
  proof (intro ballI impI)
    fix c assume "c \<in> set (constraints solver)" "strength c = HARD"
    then have "equationOf c \<in> set (hardEquations solver)"
      by (simp add: hardEquations_def)
    with bs show "satisfied ?\<rho> c"
      by (simp add: satisfied_equationOf eliminate_sound)
  qed
  moreover have "\<forall>v a. variables solver v = Some a \<longrightarrow> variables solved v = Some (?\<rho> v)"
    by (simp add: solved)
  ultimately show ?thesis by blast
qed

lemma solve_outcomes: "solve relax solver = Inl Infeasible \<or> (\<exists>solved. solve relax solver = Inr solved)"
  by (simp add: solve_def Let_def split: option.splits)

lemma solve_contradictory:
  assumes "\<not> (\<exists>\<rho>. \<forall>c \<in> set (constraints solver). strength c = HARD \<longrightarrow> satisfied \<rho> c)"
  shows "solve relax solver = Inl Infeasible"
proof (rule ccontr)
  assume "solve relax solver \<noteq> Inl Infeasible"
  with solve_outcomes [of relax solver] obtain solved where "solve relax solver = Inr solved"
    by blast
  from solve_sound [OF this] assms show False by blast
qed

text \<open>Whatever makes a pass fail, the orchestrator hands the instances back as they were.\<close>

lemma orchestrate_failure_keeps_instances:
  "fst (orchestrate relax external glyphs) = Inl e \<Longrightarrow>
     snd (orchestrate relax external glyphs) = glyphs"
  by (simp add: orchestrate_def split: sum.splits)

text \<open>
  C5. When the hard constraints of the session collected for a solve are contradictory,
  that is when no assignment of numbers to the variables satisfies all of them (as when
  two hard equations force one variable to two different values), \<^verbatim>\<open>solve\<close> reports
  \<open>Infeasible\<close>, whatever the soft phase would do, and the orchestrator returns that failure
  together with the instances exactly as they were: no attribute map is written.
\<close>

theorem contradictory_hard_constraints_infeasible:
  assumes "collect external glyphs = Inr session"
    and "\<not> (\<exists>\<rho>. \<forall>c \<in> set (constraints session). strength c = HARD \<longrightarrow> satisfied \<rho> c)"
  shows "solve relax session = Inl Infeasible
         \<and> orchestrate relax external glyphs = (Inl Infeasible, glyphs)"
proof -
  have "solve relax session = Inl Infeasible"
    using assms(2) by (rule solve_contradictory)
  then show ?thesis
    by (simp add: orchestrate_def assms(1))
qed

text \<open>
  The instance of the spec's example: a rectangle glyph in its default state, with a first
  mark at the origin, and two external hard constraints \<open>x1 = 0\<close> and \<open>x1 = 5\<close>.
\<close>

lemma emitIntrinsic_single:
  "marks g \<noteq> [] \<Longrightarrow>
     emitIntrinsic i [g] solver =
       Inr (solver\<lparr>constraints := constraints solver @ map (tagConstraint i) rectangleConstraints\<rparr>)"
  by (simp add: buildIntrinsicConstraints_marks)

theorem contradictory_hard_constraints_infeasible_witness:
  "orchestrate (\<lambda>session bindings v. 0)
     [\<lparr>strength = HARD, bias = 0, lhs = [(1, (0, (GlyphAttributes, ''x1'')))], rhs = []\<rparr>,
      \<lparr>strength = HARD, bias = 5, lhs = [(1, (0, (GlyphAttributes, ''x1'')))], rhs = []\<rparr>]
     [initializeState
        \<lparr>attributes = Map.empty, marks = [\<lparr>attributes = [''x'' \<mapsto> 0, ''y'' \<mapsto> 0]\<rparr>]\<rparr>]
   = (Inl Infeasible,
      [initializeState
         \<lparr>attributes = Map.empty, marks = [\<lparr>attributes = [''x'' \<mapsto> 0, ''y'' \<mapsto> 0]\<rparr>]\<rparr>])"
proof -
  let ?g = "initializeState
    \<lparr>attributes = Map.empty, marks = [\<lparr>attributes = [''x'' \<mapsto> 0, ''y'' \<mapsto> 0]\<rparr>]\<rparr>"
  let ?c0 = "\<lparr>strength = HARD, bias = 0,
    lhs = [(1, (0 :: nat, (GlyphAttributes, ''x1'')))], rhs = []\<rparr>"
  let ?c5 = "\<lparr>strength = HARD, bias = 5,
    lhs = [(1, (0 :: nat, (GlyphAttributes, ''x1'')))], rhs = []\<rparr>"
  let ?session = "\<lparr>variables = allocate [?g],
    constraints = map (tagConstraint 0) rectangleConstraints @ [?c0, ?c5]\<rparr>"
  have "marks ?g \<noteq> []"
    by (simp add: initializeState_marks)
  then have collected: "collect [?c0, ?c5] [?g] = Inr ?session"
    by (simp add: collect_def emitIntrinsic_single addLinear_def del: emitIntrinsic.simps)
  have contradictory:
    "\<not> (\<exists>\<rho>. \<forall>c \<in> set (constraints ?session). strength c = HARD \<longrightarrow> satisfied \<rho> c)"
  proof
    assume "\<exists>\<rho>. \<forall>c \<in> set (constraints ?session). strength c = HARD \<longrightarrow> satisfied \<rho> c"
    then obtain \<rho> where all: "\<forall>c \<in> set (constraints ?session). strength c = HARD \<longrightarrow> satisfied \<rho> c"
      by blast
    have "satisfied \<rho> ?c0" and "satisfied \<rho> ?c5"
      using all by simp_all
    then show False
      by (simp add: satisfied_def termSum_def)
  qed
  from contradictory_hard_constraints_infeasible [OF collected contradictory]
  show ?thesis by simp
qed

subsection \<open>Elimination is complete\<close>

lemma backSubstitute_obeys: "obeys \<rho> bs \<Longrightarrow> backSubstitute bs \<rho> = \<rho>"
proof (induction bs)
  case Nil
  then show ?case by simp
next
  case (Cons b bs)
  obtain x l where b: "b = (x, l)" by (cases b)
  from Cons.prems b have here: "\<rho> x = evalForm \<rho> l" and rest: "obeys \<rho> bs"
    by (simp_all add: obeys_def)
  have "\<rho>(x := evalForm \<rho> l) = \<rho>"
    using here by (metis fun_upd_triv)
  then show ?case
    using Cons.IH [OF rest] b by simp
qed

lemma obeys_pivot:
  assumes resp: "obeys \<rho> bs" and zero: "evalForm \<rho> e = 0"
    and piv: "pivot (fst (reduce bs e)) = Some (x, k)"
  shows "\<rho> x =
    evalForm \<rho> (scaleTerms (- 1 / k) (withoutVariable x (fst (reduce bs e))), - snd (reduce bs e) / k)"
proof -
  let ?r = "reduce bs e"
  from pivot_Some [OF piv] have k: "k = coefficient (fst ?r) x" "k \<noteq> 0" by auto
  have "evalForm \<rho> ?r = evalForm (backSubstitute bs \<rho>) e"
    by (simp add: evalForm_backSubstitute)
  also have "\<dots> = 0"
    using resp zero by (simp add: backSubstitute_obeys)
  finally have "k * \<rho> x + termSum \<rho> (withoutVariable x (fst ?r)) + snd ?r = 0"
    using termSum_split [of \<rho> "fst ?r" x] k(1) by (simp add: evalForm_def)
  then have "k * \<rho> x = - (termSum \<rho> (withoutVariable x (fst ?r)) + snd ?r)"
    by simp
  then have px: "\<rho> x = - (termSum \<rho> (withoutVariable x (fst ?r)) + snd ?r) / k"
    using k(2) by (simp add: field_simps)
  have "evalForm \<rho> (scaleTerms (- 1 / k) (withoutVariable x (fst ?r)), - snd ?r / k) =
      (- 1 / k) * termSum \<rho> (withoutVariable x (fst ?r)) + - snd ?r / k"
    by (simp add: evalForm_def termSum_scaleTerms)
  also have "\<dots> = - (termSum \<rho> (withoutVariable x (fst ?r)) + snd ?r) / k"
    using k(2) by (simp add: field_simps)
  finally show ?thesis
    using px by simp
qed

lemma eliminate_complete:
  "obeys \<rho> bs \<Longrightarrow> \<forall>e \<in> set es. evalForm \<rho> e = 0 \<Longrightarrow>
     \<exists>bs'. eliminate es bs = Some bs' \<and> obeys \<rho> bs'"
proof (induction es arbitrary: bs)
  case Nil
  then show ?case by simp
next
  case (Cons e es)
  let ?r = "reduce bs e"
  from Cons.prems(2) have zero: "evalForm \<rho> e = 0" and rest: "\<forall>d \<in> set es. evalForm \<rho> d = 0"
    by simp_all
  have reduced: "evalForm \<rho> ?r = 0"
    using Cons.prems(1) zero
    by (metis evalForm_backSubstitute backSubstitute_obeys)
  show ?case
  proof (cases "pivot (fst ?r)")
    case None
    then have "snd ?r = 0"
      using reduced pivot_None [OF None, of \<rho>] by (simp add: evalForm_def)
    then have "eliminate (e # es) bs = eliminate es bs"
      using None by (simp add: Let_def)
    then show ?thesis
      using Cons.IH [OF Cons.prems(1) rest] by simp
  next
    case (Some p)
    obtain x k where p: "p = (x, k)" by (cases p)
    let ?l = "(scaleTerms (- 1 / k) (withoutVariable x (fst ?r)), - snd ?r / k)"
    have piv: "pivot (fst ?r) = Some (x, k)"
      using Some p by simp
    have "\<rho> x = evalForm \<rho> ?l"
      using Cons.prems(1) zero piv by (rule obeys_pivot)
    then have "obeys \<rho> ((x, ?l) # bs)"
      using Cons.prems(1) by (simp add: obeys_def)
    from Cons.IH [OF this rest]
    obtain bs' where "eliminate es ((x, ?l) # bs) = Some bs'" and "obeys \<rho> bs'"
      by blast
    moreover have "eliminate (e # es) bs = eliminate es ((x, ?l) # bs)"
      using piv by (simp add: Let_def)
    ultimately show ?thesis by simp
  qed
qed

lemma defined_termSum_agree:
  "defined \<sigma> ts \<Longrightarrow> \<forall>v a. \<sigma> v = Some a \<longrightarrow> \<rho> v = a \<Longrightarrow>
     termSum \<rho> ts = termSum (\<lambda>v. the (\<sigma> v)) ts"
  by (induction ts) (auto simp add: defined_def termSum_def)

lemma holds_iff_satisfied_agree:
  assumes "defined \<sigma> (lhs c)" and "defined \<sigma> (rhs c)"
    and "\<forall>v a. \<sigma> v = Some a \<longrightarrow> \<rho> v = a"
  shows "holds \<sigma> c = satisfied \<rho> c"
proof -
  have "termSum \<rho> (lhs c) = termSum (\<lambda>v. the (\<sigma> v)) (lhs c)"
    using assms(1,3) by (rule defined_termSum_agree)
  moreover have "termSum \<rho> (rhs c) = termSum (\<lambda>v. the (\<sigma> v)) (rhs c)"
    using assms(2,3) by (rule defined_termSum_agree)
  ultimately show ?thesis
    using assms(1,2) by (simp add: holds_def satisfied_def)
qed

lemma holds_satisfied_agree:
  "holds \<sigma> c \<Longrightarrow> \<forall>v a. \<sigma> v = Some a \<longrightarrow> \<rho> v = a \<Longrightarrow> satisfied \<rho> c"
  using holds_iff_satisfied_agree [of \<sigma> c \<rho>] by (simp add: holds_def)

lemma solve_fixed_point:
  assumes hard: "\<forall>c \<in> set (constraints solver). strength c = HARD \<longrightarrow> holds (variables solver) c"
    and seeds: "\<forall>bs v a. variables solver v = Some a \<longrightarrow> relax solver bs v = a"
  shows "solve relax solver = Inr solver"
proof -
  let ?\<sigma> = "variables solver"
  let ?\<rho> = "\<lambda>v. case ?\<sigma> v of None \<Rightarrow> 0 | Some a \<Rightarrow> a"
  have sat: "\<forall>e \<in> set (hardEquations solver). evalForm \<rho> e = 0"
    if "\<forall>v a. ?\<sigma> v = Some a \<longrightarrow> \<rho> v = a" for \<rho>
    using hard that
    by (auto simp add: hardEquations_def satisfied_equationOf [symmetric]
        intro: holds_satisfied_agree)
  have "\<forall>e \<in> set (hardEquations solver). evalForm ?\<rho> e = 0"
    by (rule sat) simp
  with eliminate_complete [of ?\<rho> "[]" "hardEquations solver"]
  obtain bs where bs: "eliminate (hardEquations solver) [] = Some bs"
    by (auto simp add: obeys_def)
  let ?\<rho>0 = "relax solver bs"
  have agree: "\<forall>v a. ?\<sigma> v = Some a \<longrightarrow> ?\<rho>0 v = a"
    using seeds by blast
  have "\<forall>e \<in> set (hardEquations solver). evalForm ?\<rho>0 e = 0"
    using agree by (rule sat)
  with eliminate_complete [of ?\<rho>0 "[]" "hardEquations solver"] bs
  have "obeys ?\<rho>0 bs"
    by (auto simp add: obeys_def)
  then have same: "backSubstitute bs ?\<rho>0 = ?\<rho>0"
    by (rule backSubstitute_obeys)
  have "(\<lambda>v. case ?\<sigma> v of None \<Rightarrow> None | Some a \<Rightarrow> Some (?\<rho>0 v)) = ?\<sigma>"
    using agree by (auto split: option.splits)
  then show ?thesis
    by (simp add: solve_def bs same)
qed

subsection \<open>The session of a chart and the write-back\<close>

lemma emitIntrinsic_result:
  "emitIntrinsic i gs solver =
     (if list_all (\<lambda>g. marks g \<noteq> []) gs
      then Inr (solver\<lparr>constraints := constraints solver @ intrinsicConstraints i (length gs)\<rparr>)
      else Inl TypeError)"
proof (induction gs arbitrary: i solver)
  case Nil
  then show ?case by (simp add: intrinsicConstraints_def)
next
  case (Cons g gs)
  show ?case
  proof (cases "marks g = []")
    case True
    then show ?thesis by (simp add: buildIntrinsicConstraints_no_marks)
  next
    case False
    have "[i..<i + length (g # gs)] = i # [Suc i..<Suc i + length gs]"
      using upt_conv_Cons [of i "i + Suc (length gs)"] by simp
    then have "intrinsicConstraints i (length (g # gs)) =
        map (tagConstraint i) rectangleConstraints @ intrinsicConstraints (Suc i) (length gs)"
      by (simp add: intrinsicConstraints_def)
    then show ?thesis
      using False by (simp add: buildIntrinsicConstraints_marks Cons.IH del: length_Cons)
  qed
qed

lemma fold_addLinear:
  "fold (\<lambda>c. addLinear (strength c) (bias c) (lhs c) (rhs c)) cs solver =
     solver\<lparr>constraints := constraints solver @ cs\<rparr>"
  by (induction cs arbitrary: solver) (simp_all add: addLinear_def)

lemma collect_result:
  "collect external glyphs =
     (if list_all (\<lambda>g. marks g \<noteq> []) glyphs
      then Inr \<lparr>variables = allocate glyphs,
                constraints = intrinsicConstraints 0 (length glyphs) @ external\<rparr>
      else Inl TypeError)"
  by (simp add: collect_def emitIntrinsic_result fold_addLinear)

lemma solve_shape:
  assumes "solve relax solver = Inr solved"
  shows "constraints solved = constraints solver"
    and "(variables solved v = None) = (variables solver v = None)"
  using assms by (auto simp add: solve_def Let_def split: option.splits)

lemma length_distribute: "length (distribute solved glyphs) = length glyphs"
  by (simp add: distribute_def)

lemma nth_distribute:
  "i < length glyphs \<Longrightarrow>
     distribute solved glyphs ! i =
       (glyphs ! i)\<lparr>attributes := (\<lambda>name. variables solved (i, (GlyphAttributes, name))),
         marks := map (\<lambda>(j, m). m\<lparr>attributes :=
                        (\<lambda>name. variables solved (i, (MarkAttributes j, name)))\<rparr>)
                    (enumerate 0 (marks (glyphs ! i)))\<rparr>"
  by (simp add: distribute_def nth_enumerate_eq)

lemma enumerate_eq_Nil: "(enumerate n xs = []) = (xs = [])"
  by (cases xs) simp_all

lemma marks_distribute:
  "list_all (\<lambda>g. marks g \<noteq> []) (distribute solved glyphs) = list_all (\<lambda>g. marks g \<noteq> []) glyphs"
  by (auto simp add: list_all_length length_distribute nth_distribute enumerate_eq_Nil)

lemma allocate_None:
  "allocate glyphs (i, m, name) \<noteq> None \<Longrightarrow>
     i < length glyphs \<and> (case m of GlyphAttributes \<Rightarrow> True
                           | MarkAttributes j \<Rightarrow> j < length (marks (glyphs ! i)))"
  by (cases m) (auto simp add: allocate_def split: if_splits)

lemma allocate_distribute:
  assumes "\<forall>v. allocate glyphs v = None \<longrightarrow> variables solved v = None"
  shows "allocate (distribute solved glyphs) = variables solved"
proof
  fix v :: ChartVariable
  obtain i m name where v: "v = (i, m, name)" by (cases v)
  show "allocate (distribute solved glyphs) v = variables solved v"
  proof (cases "allocate glyphs v = None")
    case True
    then have none: "variables solved v = None" using assms by blast
    show ?thesis
    proof (cases "i < length glyphs")
      case False
      then show ?thesis using none v by (simp add: allocate_def length_distribute)
    next
      case inside: True
      show ?thesis
      proof (cases m)
        case GlyphAttributes
        then show ?thesis
          using inside v by (simp add: allocate_def length_distribute nth_distribute)
      next
        case (MarkAttributes j)
        then show ?thesis
          using inside v none
          by (simp add: allocate_def length_distribute nth_distribute nth_enumerate_eq)
      qed
    qed
  next
    case False
    with allocate_None [of glyphs i m name] v
    have inside: "i < length glyphs"
      and mark: "case m of GlyphAttributes \<Rightarrow> True
                 | MarkAttributes j \<Rightarrow> j < length (marks (glyphs ! i))"
      by simp_all
    show ?thesis
    proof (cases m)
      case GlyphAttributes
      then show ?thesis
        using inside v by (simp add: allocate_def length_distribute nth_distribute)
    next
      case (MarkAttributes j)
      then show ?thesis
        using inside v mark
        by (simp add: allocate_def length_distribute nth_distribute nth_enumerate_eq)
    qed
  qed
qed

lemma distribute_allocate:
  assumes "variables solved = allocate glyphs"
  shows "distribute solved glyphs = glyphs"
proof (rule nth_equalityI)
  show "length (distribute solved glyphs) = length glyphs"
    by (rule length_distribute)
next
  fix i assume "i < length (distribute solved glyphs)"
  then have inside: "i < length glyphs" by (simp add: length_distribute)
  let ?g = "glyphs ! i"
  have own: "(\<lambda>name. variables solved (i, (GlyphAttributes, name))) = attributes ?g"
    using inside by (simp add: assms allocate_def)
  have children: "map (\<lambda>(j, m). m\<lparr>attributes :=
        (\<lambda>name. variables solved (i, (MarkAttributes j, name)))\<rparr>)
      (enumerate 0 (marks ?g)) = marks ?g"
    using inside by (auto intro!: nth_equalityI simp add: nth_enumerate_eq assms allocate_def)
  show "distribute solved glyphs ! i = glyphs ! i"
    using inside by (simp add: nth_distribute own children)
qed

subsection \<open>Solving again\<close>

lemma startsWarm_warm: "startsWarm warm"
  by (simp add: startsWarm_def warm_def)

lemma solve_feasible:
  assumes "\<forall>c \<in> set (constraints solver). strength c = HARD \<longrightarrow> satisfied \<rho> c"
  shows "\<exists>solved. solve relax solver = Inr solved"
proof -
  have "\<forall>e \<in> set (hardEquations solver). evalForm \<rho> e = 0"
    using assms by (auto simp add: hardEquations_def satisfied_equationOf [symmetric])
  with eliminate_complete [of \<rho> "[]" "hardEquations solver"]
  obtain bs where "eliminate (hardEquations solver) [] = Some bs"
    by (auto simp add: obeys_def)
  then show ?thesis
    by (simp add: solve_def Let_def)
qed

lemma solve_result_holds:
  assumes first: "solve relax solver = Inr solved"
    and c: "c \<in> set (constraints solver)" "strength c = HARD"
    and known: "defined (variables solver) (lhs c)" "defined (variables solver) (rhs c)"
  shows "holds (variables solved) c"
proof -
  from solve_sound [OF first] obtain \<rho>
    where written: "\<forall>v a. variables solver v = Some a \<longrightarrow> variables solved v = Some (\<rho> v)"
      and sat: "\<forall>c \<in> set (constraints solver). strength c = HARD \<longrightarrow> satisfied \<rho> c"
    by blast
  have same: "(variables solved v = None) = (variables solver v = None)" for v
    using first by (rule solve_shape(2))
  have agree: "\<forall>v a. variables solved v = Some a \<longrightarrow> \<rho> v = a"
  proof (intro allI impI)
    fix v a assume a: "variables solved v = Some a"
    then have "variables solver v \<noteq> None" using same [of v] by simp
    then obtain b where "variables solver v = Some b" by blast
    with written have "variables solved v = Some (\<rho> v)" by blast
    with a show "\<rho> v = a" by simp
  qed
  have "defined (variables solved) ts = defined (variables solver) ts" for ts
    by (induction ts) (auto simp add: defined_def same)
  with known have "defined (variables solved) (lhs c)" "defined (variables solved) (rhs c)"
    by simp_all
  from holds_iff_satisfied_agree [OF this agree] sat c show ?thesis by blast
qed


lemma collect_variables:
  "collect external glyphs = Inr session \<Longrightarrow>
     variables session = allocate glyphs
     \<and> constraints session = intrinsicConstraints 0 (length glyphs) @ external
     \<and> list_all (\<lambda>g. marks g \<noteq> []) glyphs"
  by (auto simp add: collect_result split: if_splits)

lemma orchestrate_success:
  assumes "orchestrate relax external glyphs = (Inr (), result)"
  obtains session solved where "collect external glyphs = Inr session"
    and "solve relax session = Inr solved" and "result = distribute solved glyphs"
  using assms by (auto simp add: orchestrate_def split: sum.splits)

lemma collect_distribute:
  assumes collected: "collect external glyphs = Inr session"
    and first: "solve relax session = Inr solved"
  shows "collect external (distribute solved glyphs) = Inr solved"
proof -
  from collect_variables [OF collected]
  have vars: "variables session = allocate glyphs"
    and cons: "constraints session = intrinsicConstraints 0 (length glyphs) @ external"
    and ms: "list_all (\<lambda>g. marks g \<noteq> []) glyphs"
    by simp_all
  have "\<forall>v. allocate glyphs v = None \<longrightarrow> variables solved v = None"
    using solve_shape(2) [OF first] vars by simp
  then have "allocate (distribute solved glyphs) = variables solved"
    by (rule allocate_distribute)
  moreover have "constraints solved = intrinsicConstraints 0 (length glyphs) @ external"
    using solve_shape(1) [OF first] cons by simp
  ultimately show ?thesis
    using ms by (simp add: collect_result marks_distribute length_distribute)
qed

subsection \<open>The default state and the intrinsic constraints\<close>

lemma variableValues_initializeState_glyph:
  "variableValues (initializeState state) (GlyphAttributes, name) =
     attributes (initializeState state) name"
  by simp

lemma variableValues_initializeState_mark0:
  "marks state \<noteq> [] \<Longrightarrow>
     variableValues (initializeState state) (MarkAttributes 0, name) =
       attributes (marks state ! 0) name"
  by (simp add: initializeState_marks)

lemma defined_tag:
  "i < length glyphs \<Longrightarrow>
     defined (allocate glyphs) (map (\<lambda>(k, v). (k, (i, v))) ts) =
       defined (variableValues (glyphs ! i)) ts"
  by (induction ts) (auto simp add: defined_def allocate_def)

lemma termSum_tag:
  "i < length glyphs \<Longrightarrow>
     termSum (\<lambda>v. the (allocate glyphs v)) (map (\<lambda>(k, v). (k, (i, v))) ts) =
       termSum (\<lambda>v. the (variableValues (glyphs ! i) v)) ts"
  by (induction ts) (auto simp add: termSum_def allocate_def)

lemma holds_tagConstraint:
  "i < length glyphs \<Longrightarrow>
     holds (allocate glyphs) (tagConstraint i c) = holds (variableValues (glyphs ! i)) c"
  by (simp add: holds_def satisfied_def tagConstraint_def defined_tag termSum_tag)

lemma rectangleConstraints_hard:
  "c \<in> set rectangleConstraints \<Longrightarrow> strength c = HARD \<and> bias c = 0"
  by (auto simp add: rectangleConstraints_def)

lemma collect_single:
  "marks g \<noteq> [] \<Longrightarrow>
     collect [] [g] =
       Inr \<lparr>variables = allocate [g], constraints = map (tagConstraint 0) rectangleConstraints\<rparr>"
  by (simp add: collect_result intrinsicConstraints_def)

lemma default_state_holds:
  assumes "marks state \<noteq> []"
    and "attributes (marks state ! 0) ''x'' = Some 0"
    and "attributes (marks state ! 0) ''y'' = Some 0"
  shows "list_all (holds (variableValues (initializeState state))) rectangleConstraints"
  using assms
  by (simp add: rectangleConstraints_def holds_def defined_def satisfied_def termSum_def
      variableValues_initializeState_mark0 initializeState_attributes
      del: variableValues.simps(2))

lemma orchestrate_fixed_point:
  assumes marks: "marks g \<noteq> []"
    and holds: "list_all (holds (variableValues g)) rectangleConstraints"
    and warm: "startsWarm relax"
  shows "orchestrate relax [] [g] = (Inr (), [g])"
proof -
  let ?session = "\<lparr>variables = allocate [g],
    constraints = map (tagConstraint 0) rectangleConstraints\<rparr>"
  have collected: "collect [] [g] = Inr ?session"
    using marks by (rule collect_single)
  have "\<forall>c \<in> set (constraints ?session). strength c = HARD \<longrightarrow> holds (variables ?session) c"
    using holds by (auto simp add: list_all_iff holds_tagConstraint)
  moreover have "list_all (\<lambda>c. strength c = HARD) (constraints ?session)"
    by (auto simp add: list_all_iff tagConstraint_def rectangleConstraints_hard)
  then have "\<forall>bs v a. variables ?session v = Some a \<longrightarrow> relax ?session bs v = a"
    using warm unfolding startsWarm_def by blast
  ultimately have "solve relax ?session = Inr ?session"
    by (rule solve_fixed_point)
  moreover have "distribute ?session [g] = [g]"
    by (rule distribute_allocate) simp
  ultimately show ?thesis
    by (simp add: orchestrate_def collected)
qed

lemma orchestrate_fixed_point_holds:
  assumes fixed: "orchestrate relax [] [g] = (Inr (), [g])"
    and known: "list_all (\<lambda>c. defined (variableValues g) (lhs c)
                  \<and> defined (variableValues g) (rhs c)) rectangleConstraints"
  shows "list_all (holds (variableValues g)) rectangleConstraints"
proof -
  from fixed obtain session solved where collected: "collect [] [g] = Inr session"
    and solved: "solve relax session = Inr solved" and same: "[g] = distribute solved [g]"
    by (rule orchestrate_success)
  have "collect [] (distribute solved [g]) = Inr solved"
    using collected solved by (rule collect_distribute)
  with same collected have eq: "solved = session" by simp
  from collect_variables [OF collected]
  have vars: "variables session = allocate [g]"
    and cons: "constraints session = map (tagConstraint 0) rectangleConstraints"
    by (simp_all add: intrinsicConstraints_def)
  show ?thesis
    unfolding list_all_iff
  proof
    fix c assume c: "c \<in> set rectangleConstraints"
    then have "tagConstraint 0 c \<in> set (constraints session)"
      by (simp add: cons)
    moreover have "strength (tagConstraint 0 c) = HARD"
      using c by (simp add: tagConstraint_def rectangleConstraints_hard)
    moreover have "defined (variables session) (lhs (tagConstraint 0 c))"
      and "defined (variables session) (rhs (tagConstraint 0 c))"
      using known c by (simp_all add: list_all_iff vars tagConstraint_def defined_tag)
    ultimately have "holds (variables solved) (tagConstraint 0 c)"
      by (rule solve_result_holds [OF solved])
    then show "holds (variableValues g) c"
      by (simp add: eq vars holds_tagConstraint)
  qed
qed

lemma solve_feasible_single:
  assumes "list_all (holds (variableValues g')) rectangleConstraints"
  shows "\<exists>solved. solve relax
    \<lparr>variables = allocate [g], constraints = map (tagConstraint 0) rectangleConstraints\<rparr>
      = Inr solved"
proof (rule solve_feasible)
  let ?\<rho> = "\<lambda>v. case allocate [g'] v of None \<Rightarrow> 0 | Some a \<Rightarrow> a"
  show "\<forall>c \<in> set (constraints \<lparr>variables = allocate [g],
      constraints = map (tagConstraint 0) rectangleConstraints\<rparr>).
      strength c = HARD \<longrightarrow> satisfied ?\<rho> c"
  proof (intro ballI impI)
    fix c assume "c \<in> set (constraints \<lparr>variables = allocate [g],
      constraints = map (tagConstraint 0) rectangleConstraints\<rparr>)"
    then obtain d where d: "d \<in> set rectangleConstraints" and c: "c = tagConstraint 0 d"
      by auto
    have "holds (allocate [g']) (tagConstraint 0 d)"
      using assms d by (simp add: list_all_iff holds_tagConstraint)
    then show "satisfied ?\<rho> c"
      unfolding c by (rule holds_satisfied_agree) simp
  qed
qed

lemma termSum_zero: "termSum (\<lambda>v. 0) ts = 0"
  by (induction ts) (auto simp add: termSum_def)

lemma reduce_homogeneous:
  "snd f = 0 \<Longrightarrow> list_all (\<lambda>(x, l). snd l = 0) bs \<Longrightarrow> snd (reduce bs f) = 0"
  by (induction bs) (auto simp add: substitute_def Let_def)

lemma eliminate_homogeneous:
  "eliminate es bs = Some bs' \<Longrightarrow> list_all (\<lambda>e. snd e = 0) es \<Longrightarrow>
     list_all (\<lambda>(x, l). snd l = 0) bs \<Longrightarrow> list_all (\<lambda>(x, l). snd l = 0) bs'"
proof (induction es arbitrary: bs)
  case Nil
  then show ?case by simp
next
  case (Cons e es)
  have zero: "snd (reduce bs e) = 0"
    using Cons.prems(2,3) by (simp add: reduce_homogeneous)
  show ?case
  proof (cases "pivot (fst (reduce bs e))")
    case None
    with Cons.prems zero show ?thesis
      by (auto simp add: Let_def intro: Cons.IH)
  next
    case (Some p)
    obtain x k where p: "p = (x, k)" by (cases p)
    let ?bs = "(x, (scaleTerms (- 1 / k) (withoutVariable x (fst (reduce bs e))),
      - snd (reduce bs e) / k)) # bs"
    have "eliminate es ?bs = Some bs'"
      using Cons.prems(1) Some p by (simp add: Let_def)
    moreover have "list_all (\<lambda>e. snd e = 0) es"
      using Cons.prems(2) by simp
    moreover have "list_all (\<lambda>(x, l). snd l = 0) ?bs"
      using Cons.prems(3) zero by simp
    ultimately show ?thesis by (rule Cons.IH)
  qed
qed

lemma backSubstitute_zero:
  "list_all (\<lambda>(x, l). snd l = 0) bs \<Longrightarrow> backSubstitute bs (\<lambda>v. 0) = (\<lambda>v. 0)"
proof (induction bs)
  case Nil
  then show ?case by simp
next
  case (Cons b bs)
  obtain x l where b: "b = (x, l)" by (cases b)
  with Cons.prems have "evalForm (\<lambda>v. 0) l = 0"
    by (simp add: evalForm_def termSum_zero)
  then have "(\<lambda>v. 0 :: real)(x := evalForm (\<lambda>v. 0) l) = (\<lambda>v. 0)"
    by auto
  with Cons b show ?case by simp
qed

lemma solve_zero:
  assumes first: "solve (\<lambda>session bindings v. 0) solver = Inr solved"
    and bias: "list_all (\<lambda>c. bias c = 0) (constraints solver)"
    and seed: "variables solver v = Some a"
  shows "variables solved v = Some 0"
proof -
  from first obtain bs where bs: "eliminate (hardEquations solver) [] = Some bs"
    and solved: "solved = solver\<lparr>variables :=
      (\<lambda>v. case variables solver v of None \<Rightarrow> None
          | Some a \<Rightarrow> Some (backSubstitute bs (\<lambda>v. 0) v))\<rparr>"
    by (auto simp add: solve_def Let_def split: option.splits)
  have "list_all (\<lambda>e. snd e = 0) (hardEquations solver)"
    using bias by (auto simp add: hardEquations_def list_all_iff equationOf_def)
  with bs have "list_all (\<lambda>(x, l). snd l = 0) bs"
    by (rule eliminate_homogeneous) simp
  then have "backSubstitute bs (\<lambda>v. 0) = (\<lambda>v. 0)"
    by (rule backSubstitute_zero)
  then show ?thesis
    using seed by (simp add: solved)
qed

text \<open>
  C3, as amended. When the glyph owns a first child mark whose \<open>x\<close> and \<open>y\<close> are both
  \<open>0\<close> and the soft phase of the solver starts warm, the state \<^verbatim>\<open>initializeState\<close>
  produces is a fixed point of the class's own constraints: the emitter returns normally,
  each of the constraints it added holds on the current values of the instance, and a
  solve of the chart that consists of this glyph, with no external constraint, succeeds
  and leaves every attribute of the glyph and of its marks unchanged.
\<close>

theorem default_state_satisfies_intrinsic_constraints:
  assumes "marks state \<noteq> []"
    and "attributes (marks state ! 0) ''x'' = Some 0"
    and "attributes (marks state ! 0) ''y'' = Some 0"
    and "startsWarm relax"
  shows "fst (buildIntrinsicConstraints (initializeState state) solver) = Inr ()
         \<and> list_all (holds (variableValues (initializeState state)))
             (drop (length (constraints solver))
                (constraints (snd (buildIntrinsicConstraints (initializeState state) solver))))
         \<and> orchestrate relax [] [initializeState state] = (Inr (), [initializeState state])"
proof -
  have nonempty: "marks (initializeState state) \<noteq> []"
    using assms(1) by (simp add: initializeState_marks)
  have emitted: "buildIntrinsicConstraints (initializeState state) solver =
      (Inr (), solver\<lparr>constraints := constraints solver @ rectangleConstraints\<rparr>)"
    using nonempty by (rule buildIntrinsicConstraints_marks)
  have satisfied: "list_all (holds (variableValues (initializeState state))) rectangleConstraints"
    using assms(1-3) by (rule default_state_holds)
  have "orchestrate relax [] [initializeState state] = (Inr (), [initializeState state])"
    using nonempty satisfied assms(4) by (rule orchestrate_fixed_point)
  with emitted satisfied show ?thesis by simp
qed

theorem default_state_satisfies_intrinsic_constraints_witness:
  "startsWarm (warm :: ChartVariable ConstraintSolver \<Rightarrow> _)
   \<and> orchestrate warm []
       [initializeState
          \<lparr>attributes = Map.empty, marks = [\<lparr>attributes = [''x'' \<mapsto> 0, ''y'' \<mapsto> 0]\<rparr>]\<rparr>]
     = (Inr (),
        [initializeState
           \<lparr>attributes = Map.empty, marks = [\<lparr>attributes = [''x'' \<mapsto> 0, ''y'' \<mapsto> 0]\<rparr>]\<rparr>])"
  using default_state_satisfies_intrinsic_constraints
    [of "\<lparr>attributes = Map.empty, marks = [\<lparr>attributes = [''x'' \<mapsto> 0, ''y'' \<mapsto> 0]\<rparr>]\<rparr>"
        warm "\<lparr>variables = Map.empty, constraints = []\<rparr>"]
  by (simp add: startsWarm_warm)

lemma moved_mark_default:
  "\<not> list_all
     (holds (variableValues (initializeState
        \<lparr>attributes = Map.empty, marks = [\<lparr>attributes = [''x'' \<mapsto> 5, ''y'' \<mapsto> 0]\<rparr>]\<rparr>)))
     rectangleConstraints"
  by (simp add: rectangleConstraints_def holds_def defined_def satisfied_def termSum_def
      initializeState_marks initializeState_attributes)

lemma moved_mark_known:
  "list_all (\<lambda>c. defined (variableValues (initializeState
        \<lparr>attributes = Map.empty, marks = [\<lparr>attributes = [''x'' \<mapsto> 5, ''y'' \<mapsto> 0]\<rparr>]\<rparr>)) (lhs c)
      \<and> defined (variableValues (initializeState
        \<lparr>attributes = Map.empty, marks = [\<lparr>attributes = [''x'' \<mapsto> 5, ''y'' \<mapsto> 0]\<rparr>]\<rparr>)) (rhs c))
     rectangleConstraints"
  by (simp add: rectangleConstraints_def defined_def
      initializeState_marks initializeState_attributes)

lemma moved_mark_feasible:
  "list_all
     (holds (variableValues
        ((initializeState
           \<lparr>attributes = Map.empty, marks = [\<lparr>attributes = [''x'' \<mapsto> 5, ''y'' \<mapsto> 0]\<rparr>]\<rparr>)
         \<lparr>attributes :=
            (attributes (initializeState
               \<lparr>attributes = Map.empty,
                  marks = [\<lparr>attributes = [''x'' \<mapsto> 5, ''y'' \<mapsto> 0]\<rparr>]\<rparr>))(''x'' \<mapsto> 5)\<rparr>)))
     rectangleConstraints"
  by (simp add: rectangleConstraints_def holds_def defined_def satisfied_def termSum_def
      initializeState_marks initializeState_attributes)

lemma orchestrate_single_success:
  assumes "marks g \<noteq> []" and "list_all (holds (variableValues g')) rectangleConstraints"
  shows "\<exists>solved. solve relax
      \<lparr>variables = allocate [g], constraints = map (tagConstraint 0) rectangleConstraints\<rparr>
        = Inr solved
    \<and> orchestrate relax [] [g] = (Inr (), distribute solved [g])"
proof -
  from solve_feasible_single [OF assms(2), of relax g]
  obtain solved where "solve relax
      \<lparr>variables = allocate [g], constraints = map (tagConstraint 0) rectangleConstraints\<rparr>
        = Inr solved"
    by blast
  then show ?thesis
    using assms(1) by (simp add: orchestrate_def collect_single)
qed

lemma origin_mark_default:
  "marks (initializeState
        \<lparr>attributes = Map.empty, marks = [\<lparr>attributes = [''x'' \<mapsto> 0, ''y'' \<mapsto> 0]\<rparr>]\<rparr>) \<noteq> [] \<and> list_all (holds (variableValues (initializeState
        \<lparr>attributes = Map.empty, marks = [\<lparr>attributes = [''x'' \<mapsto> 0, ''y'' \<mapsto> 0]\<rparr>]\<rparr>))) rectangleConstraints
   \<and> allocate [(initializeState
        \<lparr>attributes = Map.empty, marks = [\<lparr>attributes = [''x'' \<mapsto> 0, ''y'' \<mapsto> 0]\<rparr>]\<rparr>)] (0, (GlyphAttributes, ''x1'')) = Some (- 30)
   \<and> allocate [(initializeState
        \<lparr>attributes = Map.empty, marks = [\<lparr>attributes = [''x'' \<mapsto> 0, ''y'' \<mapsto> 0]\<rparr>]\<rparr>)] (0, (GlyphAttributes, ''width'')) = Some 60"
proof -
  have "list_all (holds (variableValues (initializeState
        \<lparr>attributes = Map.empty, marks = [\<lparr>attributes = [''x'' \<mapsto> 0, ''y'' \<mapsto> 0]\<rparr>]\<rparr>))) rectangleConstraints"
    by (rule default_state_holds) simp_all
  then show ?thesis
    by (simp add: initializeState_marks allocate_def initializeState_attributes)
qed

lemma bias_tagged: "list_all (\<lambda>c. bias c = 0) (map (tagConstraint 0) rectangleConstraints)"
  by (auto simp add: list_all_iff tagConstraint_def rectangleConstraints_hard)

text \<open>
  C3 as stated fails when the first child mark is not at the origin: with the mark at
  \<open>x = 5\<close> the default state violates the coupling equation
  \<open>x = 0.5 * x2 + 0.5 * x1 + (first mark's x)\<close>, which reads \<open>0 = 15 - 15 + 5\<close>, and
  the solve succeeds and changes a value. It also fails, with the mark at the origin, for
  a soft phase that does not start warm: one that sends every free variable to \<open>0\<close>
  moves the default state.
\<close>

theorem default_state_satisfies_intrinsic_constraints_counterexample:
  "fst (buildIntrinsicConstraints (initializeState
        \<lparr>attributes = Map.empty, marks = [\<lparr>attributes = [''x'' \<mapsto> 5, ''y'' \<mapsto> 0]\<rparr>]\<rparr>) \<lparr>variables = Map.empty, constraints = []\<rparr>) = Inr ()
   \<and> \<not> list_all (holds (variableValues (initializeState
        \<lparr>attributes = Map.empty, marks = [\<lparr>attributes = [''x'' \<mapsto> 5, ''y'' \<mapsto> 0]\<rparr>]\<rparr>)))
         (constraints (snd (buildIntrinsicConstraints (initializeState
        \<lparr>attributes = Map.empty, marks = [\<lparr>attributes = [''x'' \<mapsto> 5, ''y'' \<mapsto> 0]\<rparr>]\<rparr>) \<lparr>variables = Map.empty, constraints = []\<rparr>)))
   \<and> fst (orchestrate warm [] [(initializeState
        \<lparr>attributes = Map.empty, marks = [\<lparr>attributes = [''x'' \<mapsto> 5, ''y'' \<mapsto> 0]\<rparr>]\<rparr>)]) = Inr ()
   \<and> snd (orchestrate warm [] [(initializeState
        \<lparr>attributes = Map.empty, marks = [\<lparr>attributes = [''x'' \<mapsto> 5, ''y'' \<mapsto> 0]\<rparr>]\<rparr>)]) \<noteq> [(initializeState
        \<lparr>attributes = Map.empty, marks = [\<lparr>attributes = [''x'' \<mapsto> 5, ''y'' \<mapsto> 0]\<rparr>]\<rparr>)]
   \<and> snd (orchestrate (\<lambda>session bindings v. 0) [] [(initializeState
        \<lparr>attributes = Map.empty, marks = [\<lparr>attributes = [''x'' \<mapsto> 0, ''y'' \<mapsto> 0]\<rparr>]\<rparr>)]) \<noteq> [(initializeState
        \<lparr>attributes = Map.empty, marks = [\<lparr>attributes = [''x'' \<mapsto> 0, ''y'' \<mapsto> 0]\<rparr>]\<rparr>)]"
proof -
  let ?g5 = "(initializeState
        \<lparr>attributes = Map.empty, marks = [\<lparr>attributes = [''x'' \<mapsto> 5, ''y'' \<mapsto> 0]\<rparr>]\<rparr>)"
  let ?g0 = "(initializeState
        \<lparr>attributes = Map.empty, marks = [\<lparr>attributes = [''x'' \<mapsto> 0, ''y'' \<mapsto> 0]\<rparr>]\<rparr>)"
  have nonempty: "marks ?g5 \<noteq> []"
    by (simp add: initializeState_marks)
  have emitted: "buildIntrinsicConstraints ?g5 \<lparr>variables = Map.empty, constraints = []\<rparr> =
      (Inr (), \<lparr>variables = Map.empty, constraints = rectangleConstraints\<rparr>)"
    using buildIntrinsicConstraints_marks [OF nonempty, of "\<lparr>variables = Map.empty, constraints = []\<rparr>"] by simp
  from orchestrate_single_success [OF nonempty moved_mark_feasible, of warm]
  obtain solved where moved: "orchestrate warm [] [?g5] = (Inr (), distribute solved [?g5])"
    by blast
  have changed: "distribute solved [?g5] \<noteq> [?g5]"
  proof
    assume "distribute solved [?g5] = [?g5]"
    with moved have "orchestrate warm [] [?g5] = (Inr (), [?g5])" by simp
    then have "list_all (holds (variableValues ?g5)) rectangleConstraints"
      using moved_mark_known by (rule orchestrate_fixed_point_holds)
    with moved_mark_default show False by simp
  qed
  from origin_mark_default have marks0: "marks ?g0 \<noteq> []"
    and holds0: "list_all (holds (variableValues ?g0)) rectangleConstraints"
    and x1: "allocate [?g0] (0, (GlyphAttributes, ''x1'')) = Some (- 30)"
    by simp_all
  from orchestrate_single_success [OF marks0 holds0, of "\<lambda>session bindings v. 0"]
  obtain zeroed where first: "solve (\<lambda>session bindings v. 0)
        \<lparr>variables = allocate [?g0], constraints = map (tagConstraint 0) rectangleConstraints\<rparr>
          = Inr zeroed"
    and result: "orchestrate (\<lambda>session bindings v. 0) [] [?g0] = (Inr (), distribute zeroed [?g0])"
    by blast
  have "distribute zeroed [?g0] \<noteq> [?g0]"
  proof
    assume same: "distribute zeroed [?g0] = [?g0]"
    have "\<forall>v. allocate [?g0] v = None \<longrightarrow> variables zeroed v = None"
      using solve_shape(2) [OF first] by simp
    then have "allocate (distribute zeroed [?g0]) = variables zeroed"
      by (rule allocate_distribute)
    then have "variables zeroed (0, (GlyphAttributes, ''x1'')) = Some (- 30)"
      using same x1 by simp
    moreover have "variables zeroed (0, (GlyphAttributes, ''x1'')) = Some 0"
      using first by (rule solve_zero) (simp_all add: bias_tagged x1)
    ultimately show False by simp
  qed
  with emitted moved changed result moved_mark_default show ?thesis by simp
qed

subsection \<open>Idempotence\<close>





section \<open>Schema completeness under the operations\<close>

lemma declared_initializeState: "set attributeNames \<subseteq> dom (attributes (initializeState state))"
  by (simp add: dom_initializeState)

lemma dom_perform_Solve:
  "dom (attributes (perform (Solve relax external) state)) = dom (attributes state)"
proof (cases "orchestrate relax external [state]")
  case (Pair outcome result)
  show ?thesis
  proof (cases outcome)
    case (Inl e)
    with Pair have "result = [state]"
      using orchestrate_failure_keeps_instances [of relax external "[state]" e] by simp
    with Pair show ?thesis by simp
  next
    case (Inr u)
    with Pair have "orchestrate relax external [state] = (Inr (), result)" by simp
    then obtain session solved where collected: "collect external [state] = Inr session"
      and solved: "solve relax session = Inr solved" and result: "result = distribute solved [state]"
      by (rule orchestrate_success)
    have vars: "variables session = allocate [state]"
      using collect_variables [OF collected] by simp
    have "(variables solved (0, (GlyphAttributes, name)) = None) = (attributes state name = None)"
      for name
      using solve_shape(2) [OF solved, of "(0, (GlyphAttributes, name))"]
      by (simp add: vars allocate_def)
    then have "dom (\<lambda>name. variables solved (0, (GlyphAttributes, name))) = dom (attributes state)"
      by (auto simp add: dom_def)
    then show ?thesis
      using Pair result by (simp add: distribute_def)
  qed
qed

lemma dom_perform:
  "dom (attributes (perform op state)) =
     (case op of
        InitializeState \<Rightarrow> dom (attributes state) \<union> set attributeNames
      | WriteAttribute name v \<Rightarrow> insert name (dom (attributes state))
      | _ \<Rightarrow> dom (attributes state))"
proof (cases op)
  case (Solve relax external)
  then show ?thesis
    by (simp add: dom_perform_Solve del: perform.simps)
qed (simp_all add: dom_initializeState setAttribute_def)

lemma declared_perform:
  "set attributeNames \<subseteq> dom (attributes state) \<Longrightarrow>
     set attributeNames \<subseteq> dom (attributes (perform op state))"
  unfolding dom_perform by (cases op) auto

lemma declared_fold_perform:
  "set attributeNames \<subseteq> dom (attributes state) \<Longrightarrow>
     set attributeNames \<subseteq> dom (attributes (fold perform ops state))"
  by (induction ops arbitrary: state) (simp_all add: declared_perform)

lemma schemaComplete_perform:
  "schemaComplete state \<Longrightarrow> declaredWrite op \<Longrightarrow> schemaComplete (perform op state)"
  unfolding schemaComplete_def dom_perform by (cases op) auto

lemma schemaComplete_fold_perform:
  "schemaComplete state \<Longrightarrow> list_all declaredWrite ops \<Longrightarrow>
     schemaComplete (fold perform ops state)"
  by (induction ops arbitrary: state) (simp_all add: schemaComplete_perform)

text \<open>
  C6, as amended. After \<^verbatim>\<open>initializeState\<close> every one of the fourteen attribute names
  the class declares is in the attribute map with a value, and stays there under every
  later sequence of operations. The map holds no attribute outside the schema when it
  held none before initialization (a new instance's map is empty), and then keeps to the
  schema under the methods of the class, under the write-back of a solve and under writes
  of declared attributes.
\<close>

theorem schema_complete_after_initialization:
  "list_all (\<lambda>name. attributes (fold perform ops (initializeState state)) name \<noteq> None)
     attributeNames
   \<and> length attributeNames = 14
   \<and> (dom (attributes state) \<subseteq> set attributeNames \<longrightarrow> list_all declaredWrite ops \<longrightarrow>
        dom (attributes (fold perform ops (initializeState state))) = set attributeNames)"
proof -
  have "set attributeNames \<subseteq> dom (attributes (fold perform ops (initializeState state)))"
    by (intro declared_fold_perform declared_initializeState)
  then have present: "list_all
      (\<lambda>name. attributes (fold perform ops (initializeState state)) name \<noteq> None) attributeNames"
    unfolding list_all_iff by blast
  have count: "length attributeNames = 14"
    by (simp add: attributeNames_def)
  have "dom (attributes (fold perform ops (initializeState state))) = set attributeNames"
    if "dom (attributes state) \<subseteq> set attributeNames" and "list_all declaredWrite ops"
  proof -
    have "schemaComplete (fold perform ops (initializeState state))"
      using that by (intro schemaComplete_fold_perform schemaComplete_initializeState)
    then show ?thesis by (simp add: schemaComplete_def)
  qed
  with present count show ?thesis by blast
qed

theorem schema_complete_after_initialization_witness:
  "dom (attributes
      (fold perform
         [GetHandles, WriteAttribute ''width'' 80, Solve warm [],
          BuildIntrinsicConstraints \<lparr>variables = Map.empty, constraints = []\<rparr>,
          InitializeState, GetAlignmentGuides]
         (initializeState
            \<lparr>attributes = Map.empty, marks = [\<lparr>attributes = [''x'' \<mapsto> 0, ''y'' \<mapsto> 0]\<rparr>]\<rparr>)))
     = set attributeNames"
proof -
  have "''width'' \<in> set attributeNames"
    by (simp add: attributeNames_def)
  then have "list_all declaredWrite
      [GetHandles, WriteAttribute ''width'' 80, Solve warm [],
       BuildIntrinsicConstraints \<lparr>variables = Map.empty, constraints = []\<rparr>,
       InitializeState, GetAlignmentGuides]"
    by simp
  moreover have "dom (attributes
      \<lparr>attributes = Map.empty, marks = [\<lparr>attributes = [''x'' \<mapsto> 0, ''y'' \<mapsto> 0]\<rparr>]\<rparr>)
        \<subseteq> set attributeNames"
    by simp
  ultimately show ?thesis
    using schema_complete_after_initialization
      [of "[GetHandles, WriteAttribute ''width'' 80, Solve warm [],
            BuildIntrinsicConstraints \<lparr>variables = Map.empty, constraints = []\<rparr>,
            InitializeState, GetAlignmentGuides]"
          "\<lparr>attributes = Map.empty, marks = [\<lparr>attributes = [''x'' \<mapsto> 0, ''y'' \<mapsto> 0]\<rparr>]\<rparr>"]
    by blast
qed

text \<open>
  C6 as stated fails in two ways. An attribute outside the schema that the map held
  before initialization is still there after it, as the initializer only assigns; and a
  later write of an undeclared name, which is a plain property assignment, adds that
  name.
\<close>

theorem schema_complete_after_initialization_counterexample:
  "dom (attributes (initializeState \<lparr>attributes = [''foo'' \<mapsto> 1], marks = []\<rparr>))
     \<noteq> set attributeNames
   \<and> dom (attributes (perform (WriteAttribute ''foo'' 1) (initializeState \<lparr>attributes = Map.empty, marks = []\<rparr>))) \<noteq> set attributeNames"
proof -
  have "''foo'' \<in> dom (attributes (initializeState \<lparr>attributes = [''foo'' \<mapsto> 1], marks = []\<rparr>))"
    by (simp add: dom_initializeState)
  moreover have "''foo'' \<in> dom (attributes (perform (WriteAttribute ''foo'' 1) (initializeState \<lparr>attributes = Map.empty, marks = []\<rparr>)))"
    by (simp add: setAttribute_def)
  ultimately show ?thesis
    using undeclared_names(1) by blast
qed

end
